theory Spec2Isabelle
  imports Main "HOL-Library.Word"
begin

unbundle bit_operations_syntax

chapter \<open>bizapi: signed request URLs\<close>

text \<open>
  A shallow embedding of package \<^verbatim>\<open>bizapi\<close> (\<^verbatim>\<open>auth.go\<close>): URL-safe base64, the
  HMAC-SHA1 signature of a request URL, the structural check of a signed URL, the key
  repository and the authentication of a signed URL.

  A Go \<^verbatim>\<open>string\<close> is a sequence of bytes and is modelled as \<^typ>\<open>string\<close> (a list of
  8-bit characters); a \<^verbatim>\<open>[]byte\<close> is a list of 8-bit words. A function that returns
  \<^verbatim>\<open>(T, error)\<close> returns a sum here, \<open>Inl\<close> carrying the error. The functions of the Go
  standard library that the package calls are modelled first, after their Go sources
  (Go 1.25); the ones whose error value is never inspected return an option.
\<close>

section \<open>Bytes and the functions of package strings\<close>

type_synonym byte = "8 word"
type_synonym u32 = "32 word"

definition ord :: "char \<Rightarrow> nat" where
  "ord c = of_char c"

text \<open>The conversion \<^verbatim>\<open>[]byte(s)\<close>.\<close>

definition bytes_of_string :: "string \<Rightarrow> byte list" where
  "bytes_of_string s = map (\<lambda>c. of_nat (ord c)) s"

text \<open>\<^verbatim>\<open>strings.Replace(s, old, new, -1)\<close> for one-byte \<^verbatim>\<open>old\<close> and \<^verbatim>\<open>new\<close>.\<close>

definition strings_Replace :: "string \<Rightarrow> char \<Rightarrow> char \<Rightarrow> string" where
  "strings_Replace s old new = map (\<lambda>c. if c = old then new else c) s"

definition strings_HasPrefix :: "string \<Rightarrow> string \<Rightarrow> bool" where
  "strings_HasPrefix s p = (take (length p) s = p)"

text \<open>\<^verbatim>\<open>strings.LastIndex\<close> and \<^verbatim>\<open>strings.Index\<close>; \<open>None\<close> is the result \<^verbatim>\<open>-1\<close>.\<close>

fun strings_LastIndex :: "string \<Rightarrow> string \<Rightarrow> nat option" where
  "strings_LastIndex [] sep = (if sep = [] then Some 0 else None)"
| "strings_LastIndex (c # cs) sep =
     (case strings_LastIndex cs sep of
        Some i \<Rightarrow> Some (i + 1)
      | None \<Rightarrow> if strings_HasPrefix (c # cs) sep then Some 0 else None)"

fun strings_Index :: "string \<Rightarrow> string \<Rightarrow> nat option" where
  "strings_Index [] sep = (if sep = [] then Some 0 else None)"
| "strings_Index (c # cs) sep =
     (if strings_HasPrefix (c # cs) sep then Some 0
      else map_option (\<lambda>i. i + 1) (strings_Index cs sep))"

text \<open>\<^verbatim>\<open>strings.Split(s, sep)\<close> for a one-byte separator: always at least one field.\<close>

fun strings_Split :: "string \<Rightarrow> char \<Rightarrow> string list" where
  "strings_Split [] sep = [[]]"
| "strings_Split (c # cs) sep =
     (if c = sep then [] # strings_Split cs sep
      else (case strings_Split cs sep of
              f # fs \<Rightarrow> (c # f) # fs
            | [] \<Rightarrow> [[c]]))"

text \<open>\<^verbatim>\<open>strings.Cut(s, sep)\<close> for a one-byte separator: the text before the first
  separator and the text after it (empty when there is none).\<close>

definition strings_Cut :: "string \<Rightarrow> char \<Rightarrow> string \<times> string" where
  "strings_Cut s sep = (takeWhile (\<lambda>c. c \<noteq> sep) s, drop 1 (dropWhile (\<lambda>c. c \<noteq> sep) s))"

definition is_upper :: "char \<Rightarrow> bool" where
  "is_upper c = (ord CHR ''A'' \<le> ord c \<and> ord c \<le> ord CHR ''Z'')"

definition is_lower :: "char \<Rightarrow> bool" where
  "is_lower c = (ord CHR ''a'' \<le> ord c \<and> ord c \<le> ord CHR ''z'')"

definition is_digit :: "char \<Rightarrow> bool" where
  "is_digit c = (ord CHR ''0'' \<le> ord c \<and> ord c \<le> ord CHR ''9'')"

definition strings_ToLower :: "string \<Rightarrow> string" where
  "strings_ToLower s = map (\<lambda>c. if is_upper c then char_of (ord c + 32) else c) s"

section \<open>encoding/base64: the standard alphabet, padded\<close>

definition encodeStd :: string where
  "encodeStd = ''ABCDEFGHIJKLMNOPQRSTUVWXYZabcdefghijklmnopqrstuvwxyz0123456789+/''"

definition enc6 :: "byte \<Rightarrow> char" where
  "enc6 v = encodeStd ! unat (v AND 0x3F)"

fun base64_EncodeToString :: "byte list \<Rightarrow> string" where
  "base64_EncodeToString [] = []"
| "base64_EncodeToString [a] =
     [enc6 (drop_bit 2 a), enc6 (push_bit 4 a), CHR ''='', CHR ''='']"
| "base64_EncodeToString [a, b] =
     [enc6 (drop_bit 2 a), enc6 (push_bit 4 a OR drop_bit 4 b), enc6 (push_bit 2 b), CHR ''='']"
| "base64_EncodeToString (a # b # c # r) =
     [enc6 (drop_bit 2 a), enc6 (push_bit 4 a OR drop_bit 4 b),
      enc6 (push_bit 2 b OR drop_bit 6 c), enc6 c] @ base64_EncodeToString r"

fun index_in :: "char \<Rightarrow> string \<Rightarrow> nat \<Rightarrow> nat option" where
  "index_in c [] n = None"
| "index_in c (x # xs) n = (if c = x then Some n else index_in c xs (n + 1))"

definition decodeMap :: "char \<Rightarrow> byte option" where
  "decodeMap c = map_option of_nat (index_in c encodeStd 0)"

definition quantum :: "byte \<Rightarrow> byte \<Rightarrow> byte \<Rightarrow> byte \<Rightarrow> byte list" where
  "quantum d0 d1 d2 d3 =
     [push_bit 2 d0 OR drop_bit 4 d1, push_bit 4 d1 OR drop_bit 2 d2, push_bit 6 d2 OR d3]"

text \<open>
  Groups of four characters give three bytes; the last group may end in one or two
  padding characters, after which nothing may follow. The decoder is not strict: the
  unused low bits of a padded group are not checked.
\<close>

fun decodeQuanta :: "string \<Rightarrow> byte list option" where
  "decodeQuanta [] = Some []"
| "decodeQuanta (c0 # c1 # c2 # c3 # r) =
     (case (decodeMap c0, decodeMap c1) of
        (Some d0, Some d1) \<Rightarrow>
          (if c2 = CHR ''='' then
             (if c3 = CHR ''='' \<and> r = [] then Some (take 1 (quantum d0 d1 0 0)) else None)
           else case decodeMap c2 of
             None \<Rightarrow> None
           | Some d2 \<Rightarrow>
               (if c3 = CHR ''='' then
                  (if r = [] then Some (take 2 (quantum d0 d1 d2 0)) else None)
                else case decodeMap c3 of
                  None \<Rightarrow> None
                | Some d3 \<Rightarrow> map_option (\<lambda>t. quantum d0 d1 d2 d3 @ t) (decodeQuanta r)))
      | _ \<Rightarrow> None)"
| "decodeQuanta _ = None"

text \<open>\<^verbatim>\<open>StdEncoding.DecodeString\<close> skips carriage returns and line feeds.\<close>

definition base64_DecodeString :: "string \<Rightarrow> byte list option" where
  "base64_DecodeString s = decodeQuanta (filter (\<lambda>c. c \<noteq> CHR 0x0A \<and> c \<noteq> CHR 0x0D) s)"

section \<open>crypto/sha1 and crypto/hmac\<close>

definition rotl :: "nat \<Rightarrow> u32 \<Rightarrow> u32" where
  "rotl n x = push_bit n x OR drop_bit (32 - n) x"

definition be32 :: "byte \<Rightarrow> byte \<Rightarrow> byte \<Rightarrow> byte \<Rightarrow> u32" where
  "be32 a b c d =
     push_bit 24 (ucast a) OR push_bit 16 (ucast b) OR push_bit 8 (ucast c) OR ucast d"

fun block_words :: "byte list \<Rightarrow> u32 list" where
  "block_words (a # b # c # d # r) = be32 a b c d # block_words r"
| "block_words _ = []"

text \<open>The message schedule, newest word first: \<open>w\<^sub>i = rotl 1 (w\<^sub>i\<^sub>-\<^sub>3 XOR w\<^sub>i\<^sub>-\<^sub>8 XOR w\<^sub>i\<^sub>-\<^sub>1\<^sub>4 XOR w\<^sub>i\<^sub>-\<^sub>1\<^sub>6)\<close>.\<close>

fun schedule :: "nat \<Rightarrow> u32 list \<Rightarrow> u32 list" where
  "schedule 0 r = r"
| "schedule (Suc n) r = schedule n (rotl 1 (r ! 2 XOR r ! 7 XOR r ! 13 XOR r ! 15) # r)"

definition sha1_f :: "nat \<Rightarrow> u32 \<Rightarrow> u32 \<Rightarrow> u32 \<Rightarrow> u32" where
  "sha1_f i b c d =
     (if i < 20 then (b AND c) OR (NOT b AND d)
      else if i < 40 then b XOR c XOR d
      else if i < 60 then ((b OR c) AND d) OR (b AND c)
      else b XOR c XOR d)"

definition sha1_K :: "nat \<Rightarrow> u32" where
  "sha1_K i = (if i < 20 then 0x5A827999 else if i < 40 then 0x6ED9EBA1
               else if i < 60 then 0x8F1BBCDC else 0xCA62C1D6)"

type_synonym digest = "u32 \<times> u32 \<times> u32 \<times> u32 \<times> u32"

fun rounds :: "nat \<Rightarrow> u32 list \<Rightarrow> digest \<Rightarrow> digest" where
  "rounds i [] s = s"
| "rounds i (w # ws) (a, b, c, d, e) =
     rounds (i + 1) ws (rotl 5 a + sha1_f i b c d + e + w + sha1_K i, a, rotl 30 b, c, d)"

definition block :: "digest \<Rightarrow> byte list \<Rightarrow> digest" where
  "block h p = (case h of (h0, h1, h2, h3, h4) \<Rightarrow>
     (case rounds 0 (rev (schedule 64 (rev (block_words p)))) h of (a, b, c, d, e) \<Rightarrow>
        (h0 + a, h1 + b, h2 + c, h3 + d, h4 + e)))"

function blocks :: "digest \<Rightarrow> byte list \<Rightarrow> digest" where
  "blocks h p = (if length p < 64 then h else blocks (block h (take 64 p)) (drop 64 p))"
  by pat_completeness auto
termination
  by (relation "measure (\<lambda>(h, p). length p)") auto

definition be_bytes32 :: "u32 \<Rightarrow> byte list" where
  "be_bytes32 w = [ucast (drop_bit 24 w), ucast (drop_bit 16 w), ucast (drop_bit 8 w), ucast w]"

definition be_bytes64 :: "64 word \<Rightarrow> byte list" where
  "be_bytes64 w = map (\<lambda>k. ucast (drop_bit k w)) [56, 48, 40, 32, 24, 16, 8, 0]"

text \<open>Padding: the byte \<open>0x80\<close>, zeros up to 56 modulo 64, and the length in bits.\<close>

definition sha1_pad :: "byte list \<Rightarrow> byte list" where
  "sha1_pad m =
     m @ [0x80] @ replicate ((119 - length m mod 64) mod 64) 0
       @ be_bytes64 (8 * of_nat (length m))"

definition sha1_init :: digest where
  "sha1_init = (0x67452301, 0xEFCDAB89, 0x98BADCFE, 0x10325476, 0xC3D2E1F0)"

definition sha1_Sum :: "byte list \<Rightarrow> byte list" where
  "sha1_Sum m = (case blocks sha1_init (sha1_pad m) of (a, b, c, d, e) \<Rightarrow>
     be_bytes32 a @ be_bytes32 b @ be_bytes32 c @ be_bytes32 d @ be_bytes32 e)"

text \<open>
  \<^verbatim>\<open>hmac.New(sha1.New, key)\<close>, \<^verbatim>\<open>Write(msg)\<close>, \<^verbatim>\<open>Sum(nil)\<close>: a key longer than the block
  size of 64 bytes is hashed first, then padded with zeros to the block size.
\<close>

definition hmac_sha1 :: "byte list \<Rightarrow> byte list \<Rightarrow> byte list" where
  "hmac_sha1 key msg =
     (let k = (if length key > 64 then sha1_Sum key else key);
          kp = k @ replicate (64 - length k) 0
      in sha1_Sum (map (\<lambda>b. b XOR 0x5c) kp @ sha1_Sum (map (\<lambda>b. b XOR 0x36) kp @ msg)))"

section \<open>net/url\<close>

datatype encoding = encodePath | encodeUserPassword | encodeQueryComponent | encodeFragment
  | encodeHost | encodeZone

definition ishex :: "char \<Rightarrow> bool" where
  "ishex c = (is_digit c
     \<or> (ord CHR ''a'' \<le> ord c \<and> ord c \<le> ord CHR ''f'')
     \<or> (ord CHR ''A'' \<le> ord c \<and> ord c \<le> ord CHR ''F''))"

definition unhex :: "char \<Rightarrow> nat" where
  "unhex c =
     (if is_digit c then ord c - ord CHR ''0''
      else if ord CHR ''a'' \<le> ord c \<and> ord c \<le> ord CHR ''f'' then ord c - ord CHR ''a'' + 10
      else if ord CHR ''A'' \<le> ord c \<and> ord c \<le> ord CHR ''F'' then ord c - ord CHR ''A'' + 10
      else 0)"

text \<open>\<^verbatim>\<open>shouldEscape(c, encodeHost)\<close>: the bytes that may not stand in a host as they are.\<close>

definition shouldEscape_host :: "char \<Rightarrow> bool" where
  "shouldEscape_host c =
     (\<not> (is_lower c \<or> is_upper c \<or> is_digit c
         \<or> c \<in> set ''!$&()*+,;=:[]<>'' \<or> c = CHR 0x27 \<or> c = CHR 0x22
         \<or> c \<in> set ''-_.~''))"

text \<open>
  \<^verbatim>\<open>unescape(s, mode)\<close>: \<open>None\<close> is an \<^verbatim>\<open>EscapeError\<close> or an \<^verbatim>\<open>InvalidHostError\<close>. Go
  validates the whole string before it builds the result; one pass that fails at the
  first defect returns the same.
\<close>

fun unescape :: "string \<Rightarrow> encoding \<Rightarrow> string option" where
  "unescape [] mode = Some []"
| "unescape (c # s) mode =
     (if c = CHR ''%'' then
        (case s of
           h1 # h2 # r \<Rightarrow>
             (if \<not> ishex h1 \<or> \<not> ishex h2 then None
              else if mode = encodeHost \<and> unhex h1 < 8 \<and> [h1, h2] \<noteq> ''25'' then None
              else if mode = encodeZone \<and> [h1, h2] \<noteq> ''25''
                      \<and> char_of (16 * unhex h1 + unhex h2) \<noteq> CHR '' ''
                      \<and> shouldEscape_host (char_of (16 * unhex h1 + unhex h2)) then None
              else map_option (\<lambda>t. char_of (16 * unhex h1 + unhex h2) # t) (unescape r mode))
         | _ \<Rightarrow> None)
      else if c = CHR ''+'' then
        map_option (\<lambda>t. (if mode = encodeQueryComponent then CHR '' '' else CHR ''+'') # t)
          (unescape s mode)
      else if (mode = encodeHost \<or> mode = encodeZone) \<and> ord c < 0x80 \<and> shouldEscape_host c
        then None
      else map_option (\<lambda>t. c # t) (unescape s mode))"

definition QueryUnescape :: "string \<Rightarrow> string option" where
  "QueryUnescape s = unescape s encodeQueryComponent"

text \<open>\<^verbatim>\<open>url.Values\<close> is \<^verbatim>\<open>map[string][]string\<close>.\<close>

type_synonym Values = "string \<rightharpoonup> string list"

text \<open>\<^verbatim>\<open>m[key] = append(m[key], value)\<close>\<close>

definition Values_append :: "Values \<Rightarrow> string \<Rightarrow> string \<Rightarrow> Values" where
  "Values_append m k v = m(k \<mapsto> (case m k of None \<Rightarrow> [] | Some vs \<Rightarrow> vs) @ [v])"

text \<open>
  The loop of \<^verbatim>\<open>parseQuery\<close> over the pieces between ampersands, with the map built so
  far and whether an error has been recorded. A piece with a semicolon or a bad escape
  records an error and is dropped; an empty piece is skipped.
\<close>

fun parseQuery :: "string list \<Rightarrow> Values \<times> bool \<Rightarrow> Values \<times> bool" where
  "parseQuery [] (m, err) = (m, err)"
| "parseQuery (key # query) (m, err) =
     (if CHR '';'' \<in> set key then parseQuery query (m, True)
      else if key = [] then parseQuery query (m, err)
      else (case strings_Cut key CHR ''='' of (k, v) \<Rightarrow>
        (case QueryUnescape k of
           None \<Rightarrow> parseQuery query (m, True)
         | Some k' \<Rightarrow>
             (case QueryUnescape v of
                None \<Rightarrow> parseQuery query (m, True)
              | Some v' \<Rightarrow> parseQuery query (Values_append m k' v', err)))))"

text \<open>\<^verbatim>\<open>url.ParseQuery\<close>; \<open>None\<close> when the error it returns is not nil.\<close>

definition url_ParseQuery :: "string \<Rightarrow> Values option" where
  "url_ParseQuery query =
     (case parseQuery (strings_Split query CHR ''&'') (Map.empty, False) of
        (m, err) \<Rightarrow> if err then None else Some m)"

text \<open>The fields of \<^verbatim>\<open>url.URL\<close> that the package reads.\<close>

record URL =
  Scheme :: string
  Host :: string
  Path :: string
  RawQuery :: string

definition stringContainsCTLByte :: "string \<Rightarrow> bool" where
  "stringContainsCTLByte s = (\<exists>c \<in> set s. ord c < 0x20 \<or> ord c = 0x7f)"

text \<open>\<^verbatim>\<open>getScheme\<close>, with the bytes read so far; \<open>None\<close> is "missing protocol scheme".\<close>

fun getScheme_from :: "string \<Rightarrow> string \<Rightarrow> string \<Rightarrow> (string \<times> string) option" where
  "getScheme_from rawURL seen [] = Some ([], rawURL)"
| "getScheme_from rawURL seen (c # cs) =
     (if is_lower c \<or> is_upper c then getScheme_from rawURL (seen @ [c]) cs
      else if is_digit c \<or> c \<in> set ''+-.'' then
        (if seen = [] then Some ([], rawURL) else getScheme_from rawURL (seen @ [c]) cs)
      else if c = CHR '':'' then
        (if seen = [] then None else Some (seen, cs))
      else Some ([], rawURL))"

definition getScheme :: "string \<Rightarrow> (string \<times> string) option" where
  "getScheme rawURL = getScheme_from rawURL [] rawURL"

definition validOptionalPort :: "string \<Rightarrow> bool" where
  "validOptionalPort port =
     (case port of [] \<Rightarrow> True | c # ds \<Rightarrow> c = CHR '':'' \<and> list_all is_digit ds)"

definition validUserinfo :: "string \<Rightarrow> bool" where
  "validUserinfo s = list_all (\<lambda>r. is_upper r \<or> is_lower r \<or> is_digit r
      \<or> r \<in> set ''-._:~!$&()*+,;=%@'' \<or> r = CHR 0x27) s"

text \<open>
  \<^verbatim>\<open>netip.ParseAddr\<close>, as far as \<^verbatim>\<open>parseHost\<close> needs it: whether the text between
  the brackets of a host is an IPv6 address. An embedded IPv4 address is four decimal
  octets, none above 255 and none with a leading zero.
\<close>

definition decimal :: "string \<Rightarrow> nat" where
  "decimal ds = foldl (\<lambda>v c. 10 * v + (ord c - ord CHR ''0'')) 0 ds"

definition ipv4_octet :: "string \<Rightarrow> bool" where
  "ipv4_octet f =
     (f \<noteq> [] \<and> list_all is_digit f \<and> (length f = 1 \<or> hd f \<noteq> CHR ''0'')
      \<and> length f \<le> 3 \<and> decimal f \<le> 255)"

definition parseIPv4Fields :: "string \<Rightarrow> bool" where
  "parseIPv4Fields s =
     (case strings_Split s CHR ''.'' of
        [a, b, c, d] \<Rightarrow> ipv4_octet a \<and> ipv4_octet b \<and> ipv4_octet c \<and> ipv4_octet d
      | _ \<Rightarrow> False)"

text \<open>
  The loop of \<^verbatim>\<open>parseIPv6\<close> over the groups: \<open>i\<close> is the number of bytes written,
  \<open>ellipsis\<close> whether \<open>::\<close> has been seen. A group has one to four hexadecimal
  digits; a dot after the digits starts an embedded IPv4 address, which has to fill the
  last four bytes; otherwise a colon and more text has to follow, or the end. At the end
  nothing may be left, and \<open>::\<close> stands for at least one group.
\<close>

definition ipv6_end :: "nat \<Rightarrow> bool \<Rightarrow> string \<Rightarrow> bool" where
  "ipv6_end i ellipsis s = (s = [] \<and> (if i < 16 then ellipsis else \<not> ellipsis))"

function ipv6_groups :: "nat \<Rightarrow> bool \<Rightarrow> string \<Rightarrow> bool" where
  "ipv6_groups i ellipsis s =
     (if \<not> i < 16 then ipv6_end i ellipsis s
      else if length (takeWhile ishex s) = 0 \<or> length (takeWhile ishex s) > 4 then False
      else if strings_HasPrefix (dropWhile ishex s) ''.'' then
        (if (\<not> ellipsis \<and> i \<noteq> 12) \<or> i + 4 > 16 then False
         else parseIPv4Fields s \<and> ipv6_end (i + 4) ellipsis [])
      else
        (case dropWhile ishex s of
           [] \<Rightarrow> ipv6_end (i + 2) ellipsis []
         | c # rest \<Rightarrow>
             if c \<noteq> CHR '':'' \<or> rest = [] then False
             else if hd rest = CHR '':'' then
               (if ellipsis then False
                else if tl rest = [] then ipv6_end (i + 2) True []
                else ipv6_groups (i + 2) True (tl rest))
             else ipv6_groups (i + 2) ellipsis rest))"
  by pat_completeness auto
termination
  by (relation "measure (\<lambda>(i, e, s). 16 - i)") auto

definition parseIPv6 :: "string \<Rightarrow> bool" where
  "parseIPv6 a =
     (case strings_Cut a CHR ''%'' of (s, zone) \<Rightarrow>
        if CHR ''%'' \<in> set a \<and> zone = [] then False
        else if strings_HasPrefix s ''::'' then
          (if drop 2 s = [] then True else ipv6_groups 0 True (drop 2 s))
        else ipv6_groups 0 False s)"

text \<open>
  \<^verbatim>\<open>ParseAddr\<close> decides by the first dot, colon or percent sign; an address with a dot
  first is an IPv4 address or none, and \<^verbatim>\<open>parseHost\<close> refuses both.
\<close>

definition netip_ParseAddr_Is6 :: "string \<Rightarrow> bool" where
  "netip_ParseAddr_Is6 a =
     (case dropWhile (\<lambda>c. c \<notin> set ''.:%'') a of
        c # _ \<Rightarrow> c = CHR '':'' \<and> parseIPv6 a
      | [] \<Rightarrow> False)"

text \<open>
  \<^verbatim>\<open>parseHost\<close>: a host with an opening bracket is an IP literal, with an optional
  port after the closing bracket and an optional zone after \<open>%25\<close>, and the text in
  the brackets has to be an IPv6 address; any other host has an optional port after its
  last colon.
\<close>

definition unescape_hostname :: "string \<Rightarrow> string option" where
  "unescape_hostname hostname =
     (case strings_Index hostname ''%25'' of
        Some zoneIdx \<Rightarrow>
          (case (unescape (take zoneIdx hostname) encodeHost,
                 unescape (drop zoneIdx hostname) encodeZone) of
             (Some hostPart, Some zonePart) \<Rightarrow> Some (hostPart @ zonePart)
           | _ \<Rightarrow> None)
      | None \<Rightarrow> unescape hostname encodeHost)"

definition parseHost :: "string \<Rightarrow> string option" where
  "parseHost host =
     (case strings_LastIndex host ''['' of
        Some openBracketIdx \<Rightarrow>
          (case strings_LastIndex host '']'' of
             None \<Rightarrow> None
           | Some closeBracketIdx \<Rightarrow>
               if \<not> validOptionalPort (drop (closeBracketIdx + 1) host) then None
               else (case unescape (drop (closeBracketIdx + 1) host) encodeHost of
                 None \<Rightarrow> None
               | Some unescapedColonPort \<Rightarrow>
                   (case unescape_hostname
                           (drop (openBracketIdx + 1) (take closeBracketIdx host)) of
                      None \<Rightarrow> None
                    | Some unescapedHostname \<Rightarrow>
                        if netip_ParseAddr_Is6 unescapedHostname
                        then Some (''['' @ unescapedHostname @ '']'' @ unescapedColonPort)
                        else None)))
      | None \<Rightarrow>
          (case strings_LastIndex host '':'' of
             Some i \<Rightarrow> if \<not> validOptionalPort (drop i host) then None
                       else unescape host encodeHost
           | None \<Rightarrow> unescape host encodeHost))"

text \<open>\<^verbatim>\<open>parseAuthority\<close>: the host, when host and user information are both valid.\<close>

definition parseAuthority :: "string \<Rightarrow> string option" where
  "parseAuthority authority =
     (case strings_LastIndex authority ''@'' of
        None \<Rightarrow> parseHost authority
      | Some i \<Rightarrow>
          (case parseHost (drop (i + 1) authority) of
             None \<Rightarrow> None
           | Some host \<Rightarrow>
               let userinfo = take i authority in
               if \<not> validUserinfo userinfo then None
               else if CHR '':'' \<notin> set userinfo then
                 (case unescape userinfo encodeUserPassword of
                    None \<Rightarrow> None | Some _ \<Rightarrow> Some host)
               else (case strings_Cut userinfo CHR '':'' of (username, password) \<Rightarrow>
                 (case (unescape username encodeUserPassword,
                        unescape password encodeUserPassword) of
                    (Some _, Some _) \<Rightarrow> Some host
                  | _ \<Rightarrow> None))))"

text \<open>
  \<^verbatim>\<open>parse(rawURL, viaRequest = false)\<close> on the text before the fragment, in three
  steps: the scheme; the query after the first question mark (a single question mark at
  the very end sets \<^verbatim>\<open>ForceQuery\<close> and leaves the query empty); and, from the rest, an
  opaque URL when a scheme is followed by no slash, the authority after two slashes, and
  the unescaped path.
\<close>

definition split_query :: "string \<Rightarrow> string \<times> string" where
  "split_query rest =
     (if rest \<noteq> [] \<and> last rest = CHR ''?'' \<and> count_list rest CHR ''?'' = 1
      then (butlast rest, [])
      else strings_Cut rest CHR ''?'')"

definition parse_rest :: "string \<Rightarrow> string \<Rightarrow> string \<Rightarrow> URL option" where
  "parse_rest scheme rest rawQuery =
     (if \<not> strings_HasPrefix rest ''/'' \<and> scheme \<noteq> [] then
        Some \<lparr>Scheme = scheme, Host = [], Path = [], RawQuery = rawQuery\<rparr>
      else if \<not> strings_HasPrefix rest ''/''
              \<and> CHR '':'' \<in> set (fst (strings_Cut rest CHR ''/'')) then None
      else if (scheme \<noteq> [] \<or> \<not> strings_HasPrefix rest ''///'')
              \<and> strings_HasPrefix rest ''//'' then
        (case strings_Cut (drop 2 rest) CHR ''/'' of (authority, _) \<Rightarrow>
          (case parseAuthority authority of
             None \<Rightarrow> None
           | Some host \<Rightarrow>
               (case unescape (drop (length authority) (drop 2 rest)) encodePath of
                  None \<Rightarrow> None
                | Some path \<Rightarrow>
                    Some \<lparr>Scheme = scheme, Host = host, Path = path, RawQuery = rawQuery\<rparr>)))
      else (case unescape rest encodePath of
              None \<Rightarrow> None
            | Some path \<Rightarrow>
                Some \<lparr>Scheme = scheme, Host = [], Path = path, RawQuery = rawQuery\<rparr>))"

definition parse :: "string \<Rightarrow> URL option" where
  "parse rawURL =
     (if stringContainsCTLByte rawURL then None
      else if rawURL = ''*'' then Some \<lparr>Scheme = [], Host = [], Path = ''*'', RawQuery = []\<rparr>
      else (case getScheme rawURL of
        None \<Rightarrow> None
      | Some (scheme, rest0) \<Rightarrow>
          (case split_query rest0 of (rest, rawQuery) \<Rightarrow>
             parse_rest (strings_ToLower scheme) rest rawQuery)))"

text \<open>\<^verbatim>\<open>url.Parse\<close>: the fragment is cut off first and must unescape.\<close>

definition url_Parse :: "string \<Rightarrow> URL option" where
  "url_Parse rawURL =
     (case strings_Cut rawURL CHR ''#'' of (u, frag) \<Rightarrow>
       (case parse u of
          None \<Rightarrow> None
        | Some url \<Rightarrow>
            if frag = [] then Some url
            else (case unescape frag encodeFragment of None \<Rightarrow> None | Some _ \<Rightarrow> Some url)))"

section \<open>bufio.Scanner\<close>

text \<open>
  The lines that \<^verbatim>\<open>Scan\<close> and \<^verbatim>\<open>Text\<close> deliver from a reader holding the given text:
  the text is split at line feeds, a last line without line feed counts when it is not
  empty, and one trailing carriage return is dropped from each line. The buffer of a
  scanner grows to \<^verbatim>\<open>MaxScanTokenSize\<close> bytes, which have to hold a line and its line
  feed: at the first longer line \<^verbatim>\<open>Scan\<close> returns false (with \<^verbatim>\<open>ErrTooLong\<close>) and
  the loop ends.
\<close>

definition MaxScanTokenSize :: nat where
  "MaxScanTokenSize = 64 * 1024"

definition dropCR :: "string \<Rightarrow> string" where
  "dropCR data = (if data \<noteq> [] \<and> last data = CHR 0x0D then butlast data else data)"

definition raw_lines :: "string \<Rightarrow> string list" where
  "raw_lines s =
     (let ls = strings_Split s CHR 0x0A in if last ls = [] then butlast ls else ls)"

definition scan_lines :: "string \<Rightarrow> string list" where
  "scan_lines s = map dropCR (takeWhile (\<lambda>l. length l < MaxScanTokenSize) (raw_lines s))"

section \<open>The package\<close>

text \<open>
  One constructor for each place where the package returns an error, named after the
  condition; an error that wraps another carries it.
\<close>

datatype error =
    DecodeError
  | MalformedQueryError
  | MissingClientParameterError
  | UnexpectedSignatureParameterError
  | InvalidKeyEncodingError error
  | MalformedUrlError string
  | MissingOrDuplicateClientError
  | MissingOrDuplicateSignatureError
  | SignUrlError error
  | MalformedRepositoryLineError string
  | CheckSignedUrlError error
  | UnknownClientError string
  | MalformedSignedUrlError string
  | CreateSignatureError error
  | SignatureMismatchError string string
  | RuntimePanic

definition EncodeUrlSafeBase64 :: "byte list \<Rightarrow> string" where
  "EncodeUrlSafeBase64 str =
     (let encoded = base64_EncodeToString str
      in strings_Replace (strings_Replace encoded CHR ''+'' CHR ''-'') CHR ''/'' CHR ''_'')"

definition DecodeUrlSafeBase64 :: "string \<Rightarrow> error + byte list" where
  "DecodeUrlSafeBase64 wiered =
     (let urlUnsafeWiered = strings_Replace (strings_Replace wiered CHR ''-'' CHR ''+'') CHR ''_'' CHR ''/''
      in case base64_DecodeString urlUnsafeWiered of
           None \<Rightarrow> Inl DecodeError
         | Some encoded \<Rightarrow> Inr encoded)"

definition CreateSignature :: "URL \<Rightarrow> string \<Rightarrow> error + string" where
  "CreateSignature requestUrl key =
     (case url_ParseQuery (RawQuery requestUrl) of
        None \<Rightarrow> Inl MalformedQueryError
      | Some values \<Rightarrow>
          if values ''client'' = None then Inl MissingClientParameterError
          else if values ''signature'' \<noteq> None then Inl UnexpectedSignatureParameterError
          else
            let urlToSign = Path requestUrl @ ''?'' @ RawQuery requestUrl in
            (case DecodeUrlSafeBase64 key of
               Inl e \<Rightarrow> Inl (InvalidKeyEncodingError e)
             | Inr decodedKey \<Rightarrow>
                 Inr (EncodeUrlSafeBase64 (hmac_sha1 decodedKey (bytes_of_string urlToSign)))))"

definition CheckSignedUrl :: "string \<Rightarrow> error + URL \<times> Values" where
  "CheckSignedUrl rawUrl =
     (case url_Parse rawUrl of
        None \<Rightarrow> Inl (MalformedUrlError rawUrl)
      | Some parsedUrl \<Rightarrow>
          (case url_ParseQuery (RawQuery parsedUrl) of
             None \<Rightarrow> Inl MalformedQueryError
           | Some values \<Rightarrow>
               if (case values ''client'' of None \<Rightarrow> True | Some v \<Rightarrow> length v \<noteq> 1)
                 then Inl MissingOrDuplicateClientError
               else if (case values ''signature'' of None \<Rightarrow> True | Some v \<Rightarrow> length v \<noteq> 1)
                 then Inl MissingOrDuplicateSignatureError
               else Inr (parsedUrl, values)))"

definition SignUrl :: "string \<Rightarrow> string \<Rightarrow> error + string" where
  "SignUrl rawUrl key =
     (case url_Parse rawUrl of
        None \<Rightarrow> Inl (MalformedUrlError rawUrl)
      | Some url \<Rightarrow>
          (case CreateSignature url key of
             Inl e \<Rightarrow> Inl (SignUrlError e)
           | Inr signature \<Rightarrow>
               Inr (Scheme url @ ''://'' @ Host url @ Path url @ ''?'' @ RawQuery url
                    @ ''&signature='' @ signature)))"

type_synonym KeyRepository = "string \<rightharpoonup> string"

text \<open>The body of the loop of \<^verbatim>\<open>LoadKeyRepository\<close>, over the lines still to read.\<close>

fun load_lines :: "string list \<Rightarrow> KeyRepository \<Rightarrow> error + KeyRepository" where
  "load_lines [] repo = Inr repo"
| "load_lines (line # ls) repo =
     (if length line = 0 \<or> hd line = CHR ''#'' then load_lines ls repo
      else
        (case strings_Split line CHR '' '' of
           [f0, f1] \<Rightarrow> load_lines ls (repo(f0 \<mapsto> f1))
         | _ \<Rightarrow> Inl (MalformedRepositoryLineError line)))"

text \<open>The reader is given by the text it delivers.\<close>

definition LoadKeyRepository :: "string \<Rightarrow> error + KeyRepository" where
  "LoadKeyRepository reader = load_lines (scan_lines reader) Map.empty"

text \<open>
  \<^verbatim>\<open>values[k][0]\<close>: a key that is absent gives the nil slice, and the index expression
  panics on a slice without elements.
\<close>

definition first_value :: "Values \<Rightarrow> string \<Rightarrow> error + string" where
  "first_value values k =
     (case values k of Some (v # _) \<Rightarrow> Inr v | _ \<Rightarrow> Inl RuntimePanic)"

text \<open>\<^verbatim>\<open>s[0:n]\<close> panics when \<open>n\<close> exceeds the length.\<close>

definition slice_to :: "string \<Rightarrow> nat \<Rightarrow> error + string" where
  "slice_to s n = (if n \<le> length s then Inr (take n s) else Inl RuntimePanic)"

definition Authenticate :: "KeyRepository \<Rightarrow> string \<Rightarrow> error + URL \<times> Values" where
  "Authenticate c rawUrl =
     (case CheckSignedUrl rawUrl of
        Inl e \<Rightarrow> Inl (CheckSignedUrlError e)
      | Inr (parsedUrl, values) \<Rightarrow>
     (case first_value values ''client'' of
        Inl p \<Rightarrow> Inl p
      | Inr client \<Rightarrow>
     (case c client of
        None \<Rightarrow> Inl (UnknownClientError client)
      | Some key \<Rightarrow>
     (case first_value values ''signature'' of
        Inl p \<Rightarrow> Inl p
      | Inr attachedSignature \<Rightarrow>
     (case strings_LastIndex rawUrl ''&signature='' of
        None \<Rightarrow> Inl (MalformedSignedUrlError rawUrl)
      | Some lastQuery \<Rightarrow>
     (case slice_to rawUrl lastQuery of
        Inl p \<Rightarrow> Inl p
      | Inr prefix \<Rightarrow>
     (case url_Parse prefix of
        None \<Rightarrow> Inl (MalformedUrlError prefix)
      | Some urlWithoutSignature \<Rightarrow>
     (case CreateSignature urlWithoutSignature key of
        Inl e \<Rightarrow> Inl (CreateSignatureError e)
      | Inr signature \<Rightarrow>
          if attachedSignature \<noteq> signature
          then Inl (SignatureMismatchError attachedSignature signature)
          else Inr (parsedUrl, values)))))))))"

text \<open>
  The two tests of the loop on a line: whether it is skipped, and the two fields of a line
  that splits at single spaces into exactly two.
\<close>

definition skipped :: "string \<Rightarrow> bool" where
  "skipped line = (length line = 0 \<or> hd line = CHR ''#'')"

definition entry_of :: "string \<Rightarrow> (string \<times> string) option" where
  "entry_of line = (case strings_Split line CHR '' '' of [f0, f1] \<Rightarrow> Some (f0, f1) | _ \<Rightarrow> None)"

text \<open>A parameter with exactly one value: \<^verbatim>\<open>present && len(v) == 1\<close>.\<close>

definition exactly_one :: "string list option \<Rightarrow> bool" where
  "exactly_one v = (case v of Some [x] \<Rightarrow> True | _ \<Rightarrow> False)"

section \<open>The specification's reading of a repository line\<close>

text \<open>
  The specification describes a line of the repository as two fields separated by white
  space. These are the fields of a line in that reading (the fields of
  \<^verbatim>\<open>strings.Fields\<close>, for the white space of ASCII), to be compared with the split at
  single spaces that the package makes.
\<close>

definition is_space :: "char \<Rightarrow> bool" where
  "is_space c = (c = CHR '' '' \<or> (9 \<le> ord c \<and> ord c \<le> 13))"

fun fields_from :: "string \<Rightarrow> string \<Rightarrow> string list" where
  "fields_from cur [] = (if cur = [] then [] else [cur])"
| "fields_from cur (c # cs) =
     (if is_space c then (if cur = [] then fields_from [] cs else cur # fields_from [] cs)
      else fields_from (cur @ [c]) cs)"

definition whitespace_fields :: "string \<Rightarrow> string list" where
  "whitespace_fields line = fields_from [] line"

section \<open>URLs with a scheme and an authority\<close>

text \<open>
  The texts that \<^verbatim>\<open>getScheme\<close> reads as a scheme: a letter, then letters, digits,
  \<open>+\<close>, \<open>-\<close> and \<open>.\<close>.
\<close>

definition scheme_char :: "char \<Rightarrow> bool" where
  "scheme_char c = (is_lower c \<or> is_upper c \<or> is_digit c \<or> c \<in> set ''+-.'')"

definition valid_scheme :: "string \<Rightarrow> bool" where
  "valid_scheme s = (s \<noteq> [] \<and> (is_lower (hd s) \<or> is_upper (hd s)) \<and> list_all scheme_char s)"

text \<open>
  The texts that \<^verbatim>\<open>url.Parse\<close> reads as the authority of a URL, between the two
  slashes and the path, the query or the fragment: no slash, question mark or number sign,
  no control byte, and user information, host and port that \<^verbatim>\<open>parseAuthority\<close>
  accepts.
\<close>

definition plain_authority :: "string \<Rightarrow> bool" where
  "plain_authority a =
     (list_all (\<lambda>c. c \<notin> set ''/?#'') a \<and> \<not> stringContainsCTLByte a \<and> parseAuthority a \<noteq> None)"

text \<open>The text of a raw URL after its first question mark and before its fragment.\<close>

definition query_part :: "string \<Rightarrow> string" where
  "query_part s = snd (strings_Cut (fst (strings_Cut s CHR ''#'')) CHR ''?'')"

section \<open>The inputs of the package's tests\<close>

definition kUrl :: string where
  "kUrl = ''http://maps.googleapis.com/maps/api/geocode/json?address=New+York&sensor=false&client=clientID''"

definition kPrivateKey :: string where
  "kPrivateKey = ''vNIXE0xscrmjlyV-12Nj_BvUPaw=''"

definition kSignature :: string where
  "kSignature = ''KrU1TzVQM7Ur0i8i7K3huiw3MsA=''"

definition kDecodedKey :: "byte list" where
  "kDecodedKey = [188, 210, 23, 19, 76, 108, 114, 185, 163, 151, 37, 126, 215, 99, 99, 252, 27, 212, 61, 172]"

definition kFullSignedUrl :: string where
  "kFullSignedUrl = ''http://maps.googleapis.com/maps/api/geocode/json?address=New+York&sensor=false&client=clientID&signature=KrU1TzVQM7Ur0i8i7K3huiw3MsA=''"

definition kRepositoryText :: string where
  "kRepositoryText = ''clientID vNIXE0xscrmjlyV-12Nj_BvUPaw='' @ [CHR 0x0A] @ ''yiw something''"

chapter \<open>Properties\<close>

section \<open>Evaluation on concrete inputs\<close>

text \<open>
  Rewrite rules that keep every intermediate word a numeral below its bound, so that the
  simplifier computes a digest block by block.
\<close>

lemma take_bit_u32: "take_bit 32 (w :: u32) = w"
  by (simp add: take_bit_word_eq_self)

lemma schedule_numeral:
  "schedule (numeral k) r =
     schedule (pred_numeral k) (take_bit 32 (rotl 1 (r ! 2 XOR r ! 7 XOR r ! 13 XOR r ! 15)) # r)"
proof -
  have "numeral k = Suc (pred_numeral k)"
    by (rule numeral_eq_Suc)
  then show ?thesis
    by (simp only: schedule.simps take_bit_u32)
qed

lemma rounds_step:
  "rounds i (w # ws) (a, b, c, d, e) =
     rounds (i + 1) ws
       (take_bit 32 (rotl 5 a + sha1_f i b c d + e + w + sha1_K i), a, take_bit 32 (rotl 30 b), c, d)"
  by (simp add: take_bit_u32)

lemma block_step:
  "block (h0, h1, h2, h3, h4) p =
     (case rounds 0 (rev (schedule 64 (rev (block_words p)))) (h0, h1, h2, h3, h4) of
        (a, b, c, d, e) \<Rightarrow>
          (take_bit 32 (h0 + a), take_bit 32 (h1 + b), take_bit 32 (h2 + c),
           take_bit 32 (h3 + d), take_bit 32 (h4 + e)))"
  by (simp add: block_def take_bit_u32)

lemma replicate_numeral_Cons: "replicate (numeral k) x = x # replicate (pred_numeral k) x"
  by (simp add: numeral_eq_Suc)

lemma be_bytes32_norm:
  "be_bytes32 w = [take_bit 8 (ucast (drop_bit 24 w)), take_bit 8 (ucast (drop_bit 16 w)),
     take_bit 8 (ucast (drop_bit 8 w)), take_bit 8 (ucast w)]"
  by (simp add: be_bytes32_def take_bit_word_eq_self)

declare rounds.simps(2) [simp del]

lemmas sha1_eval = rotl_def sha1_f_def sha1_K_def sha1_init_def schedule_numeral rounds_step
  block_step sha1_Sum_def sha1_pad_def be_bytes64_def be_bytes32_norm be32_def
  replicate_numeral_Cons bytes_of_string_def ord_def

lemmas base64_eval = EncodeUrlSafeBase64_def DecodeUrlSafeBase64_def base64_DecodeString_def
  decodeMap_def quantum_def encodeStd_def enc6_def strings_Replace_def

lemmas url_eval = url_Parse_def parse_def split_query_def parse_rest_def strings_Cut_def stringContainsCTLByte_def ord_def
  getScheme_def is_lower_def is_upper_def is_digit_def strings_ToLower_def strings_HasPrefix_def
  parseAuthority_def parseHost_def validOptionalPort_def shouldEscape_host_def
  unescape_hostname_def netip_ParseAddr_Is6_def parseIPv6_def parseIPv4Fields_def ipv4_octet_def
  decimal_def ipv6_end_def ishex_def unhex_def

lemmas query_eval = url_ParseQuery_def strings_Cut_def QueryUnescape_def Values_append_def

lemma hmac_sha1_short_key:
  assumes "length key \<le> 64"
    and "sha1_Sum (map (\<lambda>b. b XOR 0x36) (key @ replicate (64 - length key) 0) @ msg) = inner"
  shows "hmac_sha1 key msg =
     sha1_Sum (map (\<lambda>b. b XOR 0x5c) (key @ replicate (64 - length key) 0) @ inner)"
  using assms by (simp add: hmac_sha1_def Let_def)

lemma kUrl_inner:
  "sha1_Sum (map (\<lambda>b. b XOR 0x36) (kDecodedKey @ replicate (64 - length kDecodedKey) 0)
      @ bytes_of_string ''/maps/api/geocode/json?address=New+York&sensor=false&client=clientID'')
   = [87, 111, 238, 24, 105, 53, 77, 30, 76, 191, 251, 79, 186, 10, 226, 236, 7, 11, 28, 204]"
  by (simp add: kDecodedKey_def sha1_eval)

lemma kUrl_outer:
  "sha1_Sum (map (\<lambda>b. b XOR 0x5c) (kDecodedKey @ replicate (64 - length kDecodedKey) 0)
      @ [87, 111, 238, 24, 105, 53, 77, 30, 76, 191, 251, 79, 186, 10, 226, 236, 7, 11, 28, 204])
   = [42, 181, 53, 79, 53, 80, 51, 181, 43, 210, 47, 34, 236, 173, 225, 186, 44, 55, 50, 192]"
  by (simp add: kDecodedKey_def sha1_eval)

lemma kUrl_hmac:
  "hmac_sha1 kDecodedKey
     (bytes_of_string ''/maps/api/geocode/json?address=New+York&sensor=false&client=clientID'') =
   [42, 181, 53, 79, 53, 80, 51, 181, 43, 210, 47, 34, 236, 173, 225, 186, 44, 55, 50, 192]"
proof -
  have "length kDecodedKey \<le> 64"
    by (simp add: kDecodedKey_def)
  from hmac_sha1_short_key [OF this kUrl_inner] show ?thesis
    by (simp only: kUrl_outer)
qed

lemma kPrivateKey_decoded: "DecodeUrlSafeBase64 kPrivateKey = Inr kDecodedKey"
  by (simp add: kPrivateKey_def kDecodedKey_def base64_eval)

lemma kSignature_encoded:
  "EncodeUrlSafeBase64 [42, 181, 53, 79, 53, 80, 51, 181, 43, 210, 47, 34, 236, 173, 225, 186, 44, 55, 50, 192]
     = kSignature"
  by (simp add: kSignature_def base64_eval)

lemma kUrl_parsed:
  "url_Parse kUrl = Some \<lparr>Scheme = ''http'', Host = ''maps.googleapis.com'',
     Path = ''/maps/api/geocode/json'',
     RawQuery = ''address=New+York&sensor=false&client=clientID''\<rparr>"
  by (simp add: kUrl_def url_eval)

lemma kUrl_query:
  "url_ParseQuery ''address=New+York&sensor=false&client=clientID'' =
     Some [''address'' \<mapsto> [''New York''], ''sensor'' \<mapsto> [''false''], ''client'' \<mapsto> [''clientID'']]"
  by (simp add: query_eval)

lemma kUrl_CreateSignature:
  "CreateSignature \<lparr>Scheme = ''http'', Host = ''maps.googleapis.com'',
     Path = ''/maps/api/geocode/json'',
     RawQuery = ''address=New+York&sensor=false&client=clientID''\<rparr> kPrivateKey = Inr kSignature"
  by (simp add: CreateSignature_def kUrl_query kPrivateKey_decoded kUrl_hmac kSignature_encoded)

section \<open>The reference vector\<close>

text \<open>
  Claim C3. On the reference URL and key of the package's tests, \<open>CreateSignature\<close>
  returns \<open>KrU1TzVQM7Ur0i8i7K3huiw3MsA=\<close>, and \<open>SignUrl\<close> returns the URL with
  \<open>&signature=KrU1TzVQM7Ur0i8i7K3huiw3MsA=\<close> appended.
\<close>

theorem C3_reference_signature:
  "url_Parse kUrl = Some \<lparr>Scheme = ''http'', Host = ''maps.googleapis.com'',
       Path = ''/maps/api/geocode/json'',
       RawQuery = ''address=New+York&sensor=false&client=clientID''\<rparr>
   \<and> CreateSignature \<lparr>Scheme = ''http'', Host = ''maps.googleapis.com'',
       Path = ''/maps/api/geocode/json'',
       RawQuery = ''address=New+York&sensor=false&client=clientID''\<rparr> kPrivateKey
       = Inr ''KrU1TzVQM7Ur0i8i7K3huiw3MsA=''
   \<and> SignUrl kUrl kPrivateKey = Inr ''http://maps.googleapis.com/maps/api/geocode/json?address=New+York&sensor=false&client=clientID&signature=KrU1TzVQM7Ur0i8i7K3huiw3MsA=''"
  by (simp add: SignUrl_def kUrl_parsed kUrl_CreateSignature kSignature_def)

lemma kFullSignedUrl_parsed:
  "url_Parse kFullSignedUrl = Some \<lparr>Scheme = ''http'', Host = ''maps.googleapis.com'',
     Path = ''/maps/api/geocode/json'',
     RawQuery = ''address=New+York&sensor=false&client=clientID&signature=KrU1TzVQM7Ur0i8i7K3huiw3MsA=''\<rparr>"
  by (simp add: kFullSignedUrl_def url_eval)

lemma kFullSignedUrl_query:
  "url_ParseQuery ''address=New+York&sensor=false&client=clientID&signature=KrU1TzVQM7Ur0i8i7K3huiw3MsA='' =
     Some [''address'' \<mapsto> [''New York''], ''sensor'' \<mapsto> [''false''], ''client'' \<mapsto> [''clientID''],
           ''signature'' \<mapsto> [''KrU1TzVQM7Ur0i8i7K3huiw3MsA='']]"
  by (simp add: query_eval)

section \<open>The parsed query\<close>

lemma parseQuery_values_nonempty:
  assumes "parseQuery ps (m, e) = (m', e')"
    and "\<And>k vs. m k = Some vs \<Longrightarrow> vs \<noteq> []"
    and "m' k = Some vs"
  shows "vs \<noteq> []"
  using assms
proof (induction ps arbitrary: m e)
  case Nil
  then show ?case by auto
next
  case (Cons p ps)
  show ?case
  proof (cases "CHR '';'' \<in> set p \<or> p = []")
    case True
    with Cons.prems(1) have "parseQuery ps (m, True) = (m', e') \<or> parseQuery ps (m, e) = (m', e')"
      by (auto split: if_splits)
    then show ?thesis
      using Cons.IH Cons.prems(2,3) by blast
  next
    case False
    obtain k0 v0 where cut: "strings_Cut p CHR ''='' = (k0, v0)"
      by (cases "strings_Cut p CHR ''=''")
    show ?thesis
    proof (cases "QueryUnescape k0")
      case None
      with False cut Cons.prems(1) have "parseQuery ps (m, True) = (m', e')"
        by simp
      then show ?thesis
        using Cons.IH Cons.prems(2,3) by blast
    next
      case (Some k')
      show ?thesis
      proof (cases "QueryUnescape v0")
        case None
        with False cut Some Cons.prems(1) have "parseQuery ps (m, True) = (m', e')"
          by simp
        then show ?thesis
          using Cons.IH Cons.prems(2,3) by blast
      next
        case (Some v')
        with False cut \<open>QueryUnescape k0 = Some k'\<close> Cons.prems(1)
        have step: "parseQuery ps (Values_append m k' v', e) = (m', e')"
          by simp
        have "\<And>k vs. Values_append m k' v' k = Some vs \<Longrightarrow> vs \<noteq> []"
          using Cons.prems(2) by (auto simp: Values_append_def split: if_splits)
        from Cons.IH [OF step this Cons.prems(3)] show ?thesis .
      qed
    qed
  qed
qed

lemma url_ParseQuery_nonempty:
  assumes "url_ParseQuery q = Some values" and "values k = Some vs"
  shows "vs \<noteq> []"
proof -
  obtain m e where pq: "parseQuery (strings_Split q CHR ''&'') (Map.empty, False) = (m, e)"
    by (cases "parseQuery (strings_Split q CHR ''&'') (Map.empty, False)")
  with assms(1) have "m = values"
    by (simp add: url_ParseQuery_def split: if_splits)
  with parseQuery_values_nonempty [OF pq _ ] assms(2) show ?thesis
    by fastforce
qed

section \<open>CreateSignature\<close>

lemma CreateSignature_Inr_iff:
  "CreateSignature u k = Inr s \<longleftrightarrow>
     (\<exists>values kb. url_ParseQuery (RawQuery u) = Some values
        \<and> values ''client'' \<noteq> None \<and> values ''signature'' = None
        \<and> DecodeUrlSafeBase64 k = Inr kb
        \<and> s = EncodeUrlSafeBase64 (hmac_sha1 kb (bytes_of_string (Path u @ ''?'' @ RawQuery u))))"
  by (auto simp: CreateSignature_def Let_def split: option.splits sum.splits)


text \<open>
  Claim C6. When the raw query parses, for every key, valid or not: without a \<open>client\<close>
  parameter \<open>CreateSignature\<close> fails with the error for the missing client; with a
  \<open>signature\<close> parameter it fails, with the error for the unexpected signature when
  the check for the client, which comes first as in the specification's steps, has
  passed. The key is not looked at before these checks: the result is the same for every
  key.
\<close>

theorem C6_structural_checks_before_key:
  assumes "url_ParseQuery (RawQuery u) = Some values"
  shows "(values ''client'' = None \<longrightarrow> CreateSignature u k = Inl MissingClientParameterError)
    \<and> (values ''client'' \<noteq> None \<and> values ''signature'' \<noteq> None \<longrightarrow>
          CreateSignature u k = Inl UnexpectedSignatureParameterError)
    \<and> (values ''signature'' \<noteq> None \<longrightarrow> isl (CreateSignature u k))
    \<and> (values ''client'' = None \<or> values ''signature'' \<noteq> None \<longrightarrow>
          CreateSignature u k = CreateSignature u k')"
  using assms by (auto simp: CreateSignature_def)

text \<open>
  Claim C6, witness: a query without client, and a query with client and signature,
  each with a key that is not base64.
\<close>

theorem C6_witness:
  "url_ParseQuery (RawQuery \<lparr>Scheme = ''http'', Host = ''company.com'', Path = [],
       RawQuery = ''sensor=false''\<rparr>) = Some [''sensor'' \<mapsto> [''false'']]
   \<and> [''sensor'' \<mapsto> [''false'']] ''client'' = None
   \<and> CreateSignature \<lparr>Scheme = ''http'', Host = ''company.com'', Path = [],
       RawQuery = ''sensor=false''\<rparr> ''not base64'' = Inl MissingClientParameterError
   \<and> url_ParseQuery (RawQuery \<lparr>Scheme = ''http'', Host = ''company.com'', Path = [],
       RawQuery = ''client=a&signature=xxx''\<rparr>)
       = Some [''client'' \<mapsto> [''a''], ''signature'' \<mapsto> [''xxx'']]
   \<and> [''client'' \<mapsto> [''a''], ''signature'' \<mapsto> [''xxx'']] ''client'' \<noteq> None
   \<and> [''client'' \<mapsto> [''a''], ''signature'' \<mapsto> [''xxx'']] ''signature'' \<noteq> None
   \<and> CreateSignature \<lparr>Scheme = ''http'', Host = ''company.com'', Path = [],
       RawQuery = ''client=a&signature=xxx''\<rparr> ''not base64''
       = Inl UnexpectedSignatureParameterError
   \<and> isl (CreateSignature \<lparr>Scheme = ''http'', Host = ''company.com'', Path = [],
       RawQuery = ''client=a&signature=xxx''\<rparr> ''not base64'')"
proof -
  let ?u1 = "\<lparr>Scheme = ''http'', Host = ''company.com'', Path = [], RawQuery = ''sensor=false''\<rparr>"
  let ?u2 = "\<lparr>Scheme = ''http'', Host = ''company.com'', Path = [],
       RawQuery = ''client=a&signature=xxx''\<rparr>"
  have q1: "url_ParseQuery (RawQuery ?u1) = Some [''sensor'' \<mapsto> [''false'']]"
    by (simp add: query_eval)
  have q2: "url_ParseQuery (RawQuery ?u2) = Some [''client'' \<mapsto> [''a''], ''signature'' \<mapsto> [''xxx'']]"
    by (simp add: query_eval)
  from q1 q2
    C6_structural_checks_before_key [OF q1, of "''not base64''" kPrivateKey]
    C6_structural_checks_before_key [OF q2, of "''not base64''" kPrivateKey]
  show ?thesis
    by simp
qed

text \<open>
  Claim C7, counterexample. \<open>CreateSignature\<close> signs a URL whose query has two
  \<open>client\<close> values.
\<close>

theorem C7_counterexample:
  "url_ParseQuery (RawQuery \<lparr>Scheme = ''http'', Host = ''company.com'', Path = ''/p'',
       RawQuery = ''client=a&client=b''\<rparr>) = Some [''client'' \<mapsto> [''a'', ''b'']]
   \<and> CreateSignature \<lparr>Scheme = ''http'', Host = ''company.com'', Path = ''/p'',
       RawQuery = ''client=a&client=b''\<rparr> kPrivateKey
     = Inr (EncodeUrlSafeBase64 (hmac_sha1 kDecodedKey (bytes_of_string ''/p?client=a&client=b'')))"
  by (simp add: CreateSignature_def query_eval kPrivateKey_decoded)

text \<open>
  Claim C7, as amended. Every URL for which \<open>CreateSignature\<close> succeeds has a parsed
  query with at least one \<open>client\<close> value and no \<open>signature\<close> parameter:
  \<open>CreateSignature\<close> never signs a URL whose query has no \<open>client\<close> value; it does
  not count the values.
\<close>

theorem C7_signed_url_has_client_and_no_signature:
  assumes "CreateSignature u k = Inr s"
  shows "\<exists>values c cs. url_ParseQuery (RawQuery u) = Some values
           \<and> values ''client'' = Some (c # cs) \<and> values ''signature'' = None"
proof -
  from assms obtain vals where q: "url_ParseQuery (RawQuery u) = Some vals"
    and c: "vals ''client'' \<noteq> None" and s: "vals ''signature'' = None"
    unfolding CreateSignature_Inr_iff by blast
  from c obtain vs where vs: "vals ''client'' = Some vs"
    by auto
  with url_ParseQuery_nonempty [OF q] obtain c cs where "vs = c # cs"
    by (cases vs) auto
  with q vs s show ?thesis
    by blast
qed

text \<open>
  Claim C7, witness: the reference URL of the tests.
\<close>

theorem C7_witness:
  "CreateSignature \<lparr>Scheme = ''http'', Host = ''maps.googleapis.com'',
       Path = ''/maps/api/geocode/json'',
       RawQuery = ''address=New+York&sensor=false&client=clientID''\<rparr> kPrivateKey = Inr kSignature
   \<and> (\<exists>values c cs. url_ParseQuery (RawQuery \<lparr>Scheme = ''http'', Host = ''maps.googleapis.com'',
       Path = ''/maps/api/geocode/json'',
       RawQuery = ''address=New+York&sensor=false&client=clientID''\<rparr>) = Some values
           \<and> values ''client'' = Some (c # cs) \<and> values ''signature'' = None)"
  using kUrl_CreateSignature C7_signed_url_has_client_and_no_signature [OF kUrl_CreateSignature]
  by (intro conjI)

section \<open>CheckSignedUrl\<close>

lemma exactly_one_length:
  "exactly_one v \<longleftrightarrow> \<not> (case v of None \<Rightarrow> True | Some vs \<Rightarrow> length vs \<noteq> 1)"
  by (auto simp: exactly_one_def length_Suc_conv split: option.splits list.splits)

lemma CheckSignedUrl_Inr_iff:
  "CheckSignedUrl rawUrl = Inr (u, values) \<longleftrightarrow>
     url_Parse rawUrl = Some u \<and> url_ParseQuery (RawQuery u) = Some values
     \<and> exactly_one (values ''client'') \<and> exactly_one (values ''signature'')"
  unfolding exactly_one_length
  by (auto simp: CheckSignedUrl_def split: option.splits)
text \<open>
  Claim C5. For a raw URL whose URL and query parse, \<open>CheckSignedUrl\<close> succeeds, with
  the parsed URL and parameters, exactly when the query has exactly one \<open>client\<close> value
  and exactly one \<open>signature\<close> value, and fails otherwise: on the client first, then on
  the signature. It fails on a URL with a signature and no client, and on a URL with a
  client and no signature. Its result is a function of the raw URL alone: it takes no key
  and no repository.
\<close>

theorem C5_CheckSignedUrl_structural:
  assumes "url_Parse rawUrl = Some u"
    and "url_ParseQuery (RawQuery u) = Some values"
  shows "(exactly_one (values ''client'') \<and> exactly_one (values ''signature'')
            \<longrightarrow> CheckSignedUrl rawUrl = Inr (u, values))
     \<and> (\<not> exactly_one (values ''client'')
            \<longrightarrow> CheckSignedUrl rawUrl = Inl MissingOrDuplicateClientError)
     \<and> (exactly_one (values ''client'') \<and> \<not> exactly_one (values ''signature'')
            \<longrightarrow> CheckSignedUrl rawUrl = Inl MissingOrDuplicateSignatureError)
     \<and> CheckSignedUrl ''http://company.com?signature=xxx'' = Inl MissingOrDuplicateClientError
     \<and> CheckSignedUrl ''http://company.com?client=xxx'' = Inl MissingOrDuplicateSignatureError"
proof -
  have "CheckSignedUrl ''http://company.com?signature=xxx'' = Inl MissingOrDuplicateClientError"
    by (simp add: CheckSignedUrl_def url_eval query_eval)
  moreover have "CheckSignedUrl ''http://company.com?client=xxx'' = Inl MissingOrDuplicateSignatureError"
    by (simp add: CheckSignedUrl_def url_eval query_eval)
  ultimately show ?thesis
    using assms unfolding exactly_one_length
    by (simp add: CheckSignedUrl_def)
qed

text \<open>
  Claim C5, witness: the signed reference URL, which passes, and the two URLs of the
  tests, which fail.
\<close>

theorem C5_witness:
  "CheckSignedUrl kFullSignedUrl =
     Inr (\<lparr>Scheme = ''http'', Host = ''maps.googleapis.com'', Path = ''/maps/api/geocode/json'',
           RawQuery = ''address=New+York&sensor=false&client=clientID&signature=KrU1TzVQM7Ur0i8i7K3huiw3MsA=''\<rparr>,
          [''address'' \<mapsto> [''New York''], ''sensor'' \<mapsto> [''false''], ''client'' \<mapsto> [''clientID''],
           ''signature'' \<mapsto> [''KrU1TzVQM7Ur0i8i7K3huiw3MsA='']])
   \<and> url_Parse ''http://company.com?signature=xxx''
       = Some \<lparr>Scheme = ''http'', Host = ''company.com'', Path = [], RawQuery = ''signature=xxx''\<rparr>
   \<and> url_ParseQuery ''signature=xxx'' = Some [''signature'' \<mapsto> [''xxx'']]
   \<and> \<not> exactly_one ([''signature'' \<mapsto> [''xxx'']] ''client'')
   \<and> CheckSignedUrl ''http://company.com?signature=xxx'' = Inl MissingOrDuplicateClientError
   \<and> url_Parse ''http://company.com?client=xxx''
       = Some \<lparr>Scheme = ''http'', Host = ''company.com'', Path = [], RawQuery = ''client=xxx''\<rparr>
   \<and> url_ParseQuery ''client=xxx'' = Some [''client'' \<mapsto> [''xxx'']]
   \<and> exactly_one ([''client'' \<mapsto> [''xxx'']] ''client'')
   \<and> \<not> exactly_one ([''client'' \<mapsto> [''xxx'']] ''signature'')
   \<and> CheckSignedUrl ''http://company.com?client=xxx'' = Inl MissingOrDuplicateSignatureError"
proof -
  let ?u = "\<lparr>Scheme = ''http'', Host = ''maps.googleapis.com'', Path = ''/maps/api/geocode/json'',
           RawQuery = ''address=New+York&sensor=false&client=clientID&signature=KrU1TzVQM7Ur0i8i7K3huiw3MsA=''\<rparr>"
  let ?u1 = "\<lparr>Scheme = ''http'', Host = ''company.com'', Path = [], RawQuery = ''signature=xxx''\<rparr>"
  let ?u2 = "\<lparr>Scheme = ''http'', Host = ''company.com'', Path = [], RawQuery = ''client=xxx''\<rparr>"
  have q: "url_ParseQuery (RawQuery ?u) = Some [''address'' \<mapsto> [''New York''], ''sensor'' \<mapsto> [''false''],
      ''client'' \<mapsto> [''clientID''], ''signature'' \<mapsto> [''KrU1TzVQM7Ur0i8i7K3huiw3MsA='']]"
    by (simp add: kFullSignedUrl_query)
  have p1: "url_Parse ''http://company.com?signature=xxx'' = Some ?u1"
    by (simp add: url_eval)
  have q1: "url_ParseQuery (RawQuery ?u1) = Some [''signature'' \<mapsto> [''xxx'']]"
    by (simp add: query_eval)
  have p2: "url_Parse ''http://company.com?client=xxx'' = Some ?u2"
    by (simp add: url_eval)
  have q2: "url_ParseQuery (RawQuery ?u2) = Some [''client'' \<mapsto> [''xxx'']]"
    by (simp add: query_eval)
  from p1 q1 p2 q2
    C5_CheckSignedUrl_structural [OF kFullSignedUrl_parsed q]
    C5_CheckSignedUrl_structural [OF p1 q1]
    C5_CheckSignedUrl_structural [OF p2 q2]
  show ?thesis
    by (simp add: exactly_one_def)
qed

section \<open>LoadKeyRepository\<close>

lemma load_lines_eq:
  "load_lines ls repo =
     (case find (\<lambda>l. entry_of l = None) (filter (\<lambda>l. \<not> skipped l) ls) of
        Some bad \<Rightarrow> Inl (MalformedRepositoryLineError bad)
      | None \<Rightarrow>
          Inr (repo ++ map_of (rev (List.map_filter entry_of (filter (\<lambda>l. \<not> skipped l) ls)))))"
proof (induction ls arbitrary: repo)
  case Nil
  then show ?case
    by (simp add: List.map_filter_simps)
next
  case (Cons l ls)
  show ?case
  proof (cases "skipped l")
    case True
    then have a: "load_lines (l # ls) repo = load_lines ls repo"
      by (simp add: skipped_def)
    from True have b: "filter (\<lambda>l. \<not> skipped l) (l # ls) = filter (\<lambda>l. \<not> skipped l) ls"
      by simp
    show ?thesis
      by (simp only: a b Cons.IH)
  next
    case False
    note not_skipped = this
    show ?thesis
    proof (cases "entry_of l")
      case None
      then have "load_lines (l # ls) repo = Inl (MalformedRepositoryLineError l)"
        using not_skipped
        by (auto simp: skipped_def entry_of_def split: list.splits)
      then show ?thesis
        using None not_skipped by simp
    next
      case (Some e)
      obtain f0 f1 where e: "e = (f0, f1)"
        by (cases e)
      with Some have split: "strings_Split l CHR '' '' = [f0, f1]"
        by (auto simp: entry_of_def split: list.splits)
      have "load_lines (l # ls) repo = load_lines ls (repo(f0 \<mapsto> f1))"
        using not_skipped split by (simp add: skipped_def)
      moreover have "repo(f0 \<mapsto> f1) ++ m = repo ++ ([f0 \<mapsto> f1] ++ m)" for m :: KeyRepository
        by (rule ext) (simp add: map_add_def split: option.splits)
      ultimately show ?thesis
        using Some e not_skipped Cons.IH [of "repo(f0 \<mapsto> f1)"]
        by (simp add: List.map_filter_simps split: option.splits)
    qed
  qed
qed

lemma scan_lines_short:
  assumes "list_all (\<lambda>l. length l < MaxScanTokenSize) (raw_lines src)"
  shows "scan_lines src = map dropCR (raw_lines src)"
proof -
  from assms have "takeWhile (\<lambda>l. length l < MaxScanTokenSize) (raw_lines src) = raw_lines src"
    by (simp add: takeWhile_eq_all_conv list_all_iff)
  then show ?thesis
    unfolding scan_lines_def by (rule arg_cong)
qed

lemma load_lines_empty:
  "load_lines ls Map.empty =
     (case find (\<lambda>l. entry_of l = None) (filter (\<lambda>l. \<not> skipped l) ls) of
        Some bad \<Rightarrow> Inl (MalformedRepositoryLineError bad)
      | None \<Rightarrow> Inr (map_of (rev (List.map_filter entry_of (filter (\<lambda>l. \<not> skipped l) ls)))))"
  by (simp add: load_lines_eq cong: option.case_cong)

lemma kRepositoryText_lines:
  "raw_lines kRepositoryText = [''clientID vNIXE0xscrmjlyV-12Nj_BvUPaw='', ''yiw something'']"
  by (simp add: kRepositoryText_def raw_lines_def)
text \<open>
  Claim C8, counterexample. The line \<open>a  b\<close>, with two spaces, has exactly two fields
  separated by white space, and \<open>LoadKeyRepository\<close> fails on it: the package splits at
  every single space, which gives three fields here.
\<close>

theorem C8_counterexample:
  "length (whitespace_fields ''a  b'') = 2
   \<and> LoadKeyRepository ''a  b'' = Inl (MalformedRepositoryLineError ''a  b'')"
  by (simp add: whitespace_fields_def is_space_def ord_def LoadKeyRepository_def scan_lines_def
      raw_lines_def dropCR_def MaxScanTokenSize_def)

text \<open>
  Claim C8, as amended. For a text whose lines are all shorter than the token limit of
  the scanner, with the lines taken as the scanner delivers them: \<open>LoadKeyRepository\<close>
  skips the empty lines and the lines that begin with \<open>#\<close>; it fails with an error
  carrying the first other line that does not split at single spaces into exactly two
  fields; otherwise it returns the mapping from first field to second field in which a
  later line overwrites an earlier one with the same first field. The text of the test
  gives a mapping with the two keys \<open>clientID\<close> and \<open>yiw\<close>.
\<close>

theorem C8_LoadKeyRepository:
  assumes "list_all (\<lambda>l. length l < MaxScanTokenSize) (raw_lines src)"
  shows "LoadKeyRepository src =
      (case find (\<lambda>l. entry_of l = None)
              (filter (\<lambda>l. \<not> skipped l) (map dropCR (raw_lines src))) of
         Some bad \<Rightarrow> Inl (MalformedRepositoryLineError bad)
       | None \<Rightarrow>
           Inr (map_of (rev (List.map_filter entry_of
                  (filter (\<lambda>l. \<not> skipped l) (map dropCR (raw_lines src)))))))
    \<and> LoadKeyRepository kRepositoryText
        = Inr [''clientID'' \<mapsto> ''vNIXE0xscrmjlyV-12Nj_BvUPaw='', ''yiw'' \<mapsto> ''something'']
    \<and> dom [''clientID'' \<mapsto> ''vNIXE0xscrmjlyV-12Nj_BvUPaw='', ''yiw'' \<mapsto> ''something'']
        = {''clientID'', ''yiw''}"
proof -
  have general: "LoadKeyRepository src =
      (case find (\<lambda>l. entry_of l = None)
              (filter (\<lambda>l. \<not> skipped l) (map dropCR (raw_lines src))) of
         Some bad \<Rightarrow> Inl (MalformedRepositoryLineError bad)
       | None \<Rightarrow>
           Inr (map_of (rev (List.map_filter entry_of
                  (filter (\<lambda>l. \<not> skipped l) (map dropCR (raw_lines src)))))))"
    by (simp only: LoadKeyRepository_def load_lines_empty scan_lines_short [OF assms])
  have test: "LoadKeyRepository kRepositoryText
        = Inr [''clientID'' \<mapsto> ''vNIXE0xscrmjlyV-12Nj_BvUPaw='', ''yiw'' \<mapsto> ''something'']"
    by (simp add: LoadKeyRepository_def scan_lines_def kRepositoryText_lines dropCR_def
        MaxScanTokenSize_def)
  have size: "dom [''clientID'' \<mapsto> ''vNIXE0xscrmjlyV-12Nj_BvUPaw='', ''yiw'' \<mapsto> ''something'']
        = {''clientID'', ''yiw''}"
    by auto
  from general test size show ?thesis
    by (intro conjI)
qed

text \<open>
  Claim C8, witness: the text of the test has short lines.
\<close>

theorem C8_witness:
  "list_all (\<lambda>l. length l < MaxScanTokenSize) (raw_lines kRepositoryText)
   \<and> LoadKeyRepository kRepositoryText =
      (case find (\<lambda>l. entry_of l = None)
              (filter (\<lambda>l. \<not> skipped l) (map dropCR (raw_lines kRepositoryText))) of
         Some bad \<Rightarrow> Inl (MalformedRepositoryLineError bad)
       | None \<Rightarrow>
           Inr (map_of (rev (List.map_filter entry_of
                  (filter (\<lambda>l. \<not> skipped l) (map dropCR (raw_lines kRepositoryText)))))))"
proof -
  have h: "list_all (\<lambda>l. length l < MaxScanTokenSize) (raw_lines kRepositoryText)"
    by (simp add: kRepositoryText_lines MaxScanTokenSize_def)
  from h C8_LoadKeyRepository [OF h] show ?thesis
    by (intro conjI) simp_all
qed

section \<open>strings.LastIndex\<close>

lemma take_eq_length_le:
  assumes "take (length p) s = p"
  shows "length p \<le> length s"
proof -
  from assms have "length (take (length p) s) = length p"
    by simp
  then show ?thesis
    by (simp add: min_def split: if_splits)
qed

lemma strings_LastIndex_Some:
  assumes "strings_LastIndex s sep = Some i"
  shows "i + length sep \<le> length s \<and> take (length sep) (drop i s) = sep"
  using assms
proof (induction s arbitrary: i)
  case Nil
  then show ?case by (simp split: if_splits)
next
  case (Cons c cs)
  show ?case
  proof (cases "strings_LastIndex cs sep")
    case None
    with Cons.prems have "strings_HasPrefix (c # cs) sep" and "i = 0"
      by (simp_all split: if_splits)
    then have "take (length sep) (c # cs) = sep" and "i = 0"
      by (simp_all add: strings_HasPrefix_def)
    moreover from this have "length sep \<le> length (c # cs)"
      using take_eq_length_le by blast
    ultimately show ?thesis
      by simp
  next
    case (Some j)
    with Cons.prems have "i = j + 1"
      by simp
    with Cons.IH [OF Some] show ?thesis
      by simp
  qed
qed

lemma strings_LastIndex_le:
  "strings_LastIndex s sep = Some i \<Longrightarrow> i \<le> length s"
  using strings_LastIndex_Some by fastforce

lemma strings_LastIndex_None:
  assumes "strings_LastIndex s sep = None" and "j + length sep \<le> length s"
  shows "take (length sep) (drop j s) \<noteq> sep"
  using assms
proof (induction s arbitrary: j)
  case Nil
  then show ?case by (simp split: if_splits)
next
  case (Cons c cs)
  from Cons.prems(1) have none: "strings_LastIndex cs sep = None"
    and np: "\<not> strings_HasPrefix (c # cs) sep"
    by (simp_all split: option.splits if_splits)
  show ?case
  proof (cases j)
    case 0
    with np show ?thesis
      by (simp add: strings_HasPrefix_def)
  next
    case (Suc k)
    with Cons.prems(2) have "k + length sep \<le> length cs"
      by simp
    from Cons.IH [OF none this] Suc show ?thesis
      by simp
  qed
qed

lemma strings_LastIndex_last:
  assumes "strings_LastIndex s sep = Some i" and "i < j" and "j + length sep \<le> length s"
  shows "take (length sep) (drop j s) \<noteq> sep"
  using assms
proof (induction s arbitrary: i j)
  case Nil
  then show ?case by simp
next
  case (Cons c cs)
  from Cons.prems(2) obtain k where j: "j = Suc k"
    by (cases j) auto
  with Cons.prems(3) have k: "k + length sep \<le> length cs"
    by simp
  show ?case
  proof (cases "strings_LastIndex cs sep")
    case None
    from strings_LastIndex_None [OF None k] j show ?thesis
      by simp
  next
    case (Some i')
    with Cons.prems(1) have "i = i' + 1"
      by simp
    with Cons.prems(2) j have "i' < k"
      by simp
    from Cons.IH [OF Some this k] j show ?thesis
      by simp
  qed
qed

lemma strings_LastIndex_append:
  assumes "strings_LastIndex t sep = Some j"
  shows "strings_LastIndex (a @ t) sep = Some (length a + j)"
  using assms by (induction a) simp_all

lemma strings_LastIndex_eqI:
  assumes occ: "i + length sep \<le> length s" "take (length sep) (drop i s) = sep"
    and last: "\<And>j. i < j \<Longrightarrow> j + length sep \<le> length s \<Longrightarrow> take (length sep) (drop j s) \<noteq> sep"
  shows "strings_LastIndex s sep = Some i"
proof (cases "strings_LastIndex s sep")
  case None
  from strings_LastIndex_None [OF None occ(1)] occ(2) show ?thesis
    by simp
next
  case (Some k)
  have "\<not> k < i"
    using strings_LastIndex_last [OF Some _ occ(1)] occ(2) by blast
  moreover have "\<not> i < k"
    using last [of k] strings_LastIndex_Some [OF Some] by blast
  ultimately show ?thesis
    using Some by simp
qed

lemma strings_LastIndex_append_ge:
  assumes "strings_LastIndex (a @ t) sep = Some i" and "length a \<le> i"
  shows "strings_LastIndex t sep = Some (i - length a)"
proof (rule strings_LastIndex_eqI)
  from strings_LastIndex_Some [OF assms(1)] assms(2)
  have "i + length sep \<le> length a + length t"
    and occ: "take (length sep) (drop (i - length a) t) = sep"
    by simp_all
  with assms(2) show "i - length a + length sep \<le> length t"
    by linarith
  from occ show "take (length sep) (drop (i - length a) t) = sep" .
next
  fix j
  assume "i - length a < j" and "j + length sep \<le> length t"
  with strings_LastIndex_last [OF assms(1), of "length a + j"] assms(2)
  show "take (length sep) (drop j t) \<noteq> sep"
    by simp
qed

section \<open>Authenticate\<close>

lemma exactly_one_first_value:
  "exactly_one (vals k) \<Longrightarrow> \<exists>v. vals k = Some [v] \<and> first_value vals k = Inr v"
  by (auto simp: exactly_one_def first_value_def split: option.splits list.splits)

lemma slice_to_LastIndex:
  "strings_LastIndex s sep = Some i \<Longrightarrow> slice_to s i = Inr (take i s)"
  by (simp add: slice_to_def strings_LastIndex_le)

lemma Authenticate_Inr_iff:
  "Authenticate c rawUrl = Inr (u, vals) \<longleftrightarrow>
     (\<exists>client key sg i u'.
        CheckSignedUrl rawUrl = Inr (u, vals)
        \<and> vals ''client'' = Some [client] \<and> vals ''signature'' = Some [sg]
        \<and> c client = Some key
        \<and> strings_LastIndex rawUrl ''&signature='' = Some i
        \<and> url_Parse (take i rawUrl) = Some u'
        \<and> CreateSignature u' key = Inr sg)"
proof (cases "CheckSignedUrl rawUrl")
  case (Inl e)
  then show ?thesis
    by (simp add: Authenticate_def)
next
  case (Inr r)
  obtain u0 vals0 where r: "r = (u0, vals0)"
    by (cases r)
  from Inr r have "exactly_one (vals0 ''client'')" and "exactly_one (vals0 ''signature'')"
    by (simp_all add: CheckSignedUrl_Inr_iff)
  then obtain cl sg where cl: "vals0 ''client'' = Some [cl]" "first_value vals0 ''client'' = Inr cl"
    and sg: "vals0 ''signature'' = Some [sg]" "first_value vals0 ''signature'' = Inr sg"
    using exactly_one_first_value [of vals0 "''client''"]
      exactly_one_first_value [of vals0 "''signature''"] by auto
  show ?thesis
    using Inr r cl sg
    by (auto simp: Authenticate_def slice_to_LastIndex split: option.splits sum.splits)
qed

lemma Authenticate_no_panic: "Authenticate c rawUrl \<noteq> Inl RuntimePanic"
proof (cases "CheckSignedUrl rawUrl")
  case (Inl e)
  then show ?thesis
    by (simp add: Authenticate_def)
next
  case (Inr r)
  obtain u0 vals0 where r: "r = (u0, vals0)"
    by (cases r)
  from Inr r have "exactly_one (vals0 ''client'')" and "exactly_one (vals0 ''signature'')"
    by (simp_all add: CheckSignedUrl_Inr_iff)
  then obtain cl sg where cl: "first_value vals0 ''client'' = Inr cl"
    and sg: "first_value vals0 ''signature'' = Inr sg"
    using exactly_one_first_value [of vals0 "''client''"]
      exactly_one_first_value [of vals0 "''signature''"] by auto
  show ?thesis
    using Inr r cl sg
    by (auto simp: Authenticate_def slice_to_LastIndex split: option.splits sum.splits)
qed

lemma CreateSignature_invalid_key:
  "DecodeUrlSafeBase64 key = Inl e \<Longrightarrow> isl (CreateSignature u key)"
  by (simp add: CreateSignature_def split: option.splits)

lemma invalid_key_decoded: "DecodeUrlSafeBase64 ''invalidBased64Key'' = Inl DecodeError"
  by (simp add: base64_eval)

lemma kFullSignedUrl_checked:
  "CheckSignedUrl kFullSignedUrl =
     Inr (\<lparr>Scheme = ''http'', Host = ''maps.googleapis.com'', Path = ''/maps/api/geocode/json'',
           RawQuery = ''address=New+York&sensor=false&client=clientID&signature=KrU1TzVQM7Ur0i8i7K3huiw3MsA=''\<rparr>,
          [''address'' \<mapsto> [''New York''], ''sensor'' \<mapsto> [''false''], ''client'' \<mapsto> [''clientID''],
           ''signature'' \<mapsto> [''KrU1TzVQM7Ur0i8i7K3huiw3MsA='']])"
  by (simp add: CheckSignedUrl_def kFullSignedUrl_parsed kFullSignedUrl_query)

lemma kFullSignedUrl_marker: "strings_LastIndex kFullSignedUrl ''&signature='' = Some 94"
  by (simp add: kFullSignedUrl_def strings_HasPrefix_def)

lemma kFullSignedUrl_prefix: "slice_to kFullSignedUrl 94 = Inr kUrl"
proof -
  have "94 \<le> length kFullSignedUrl"
    by (simp add: kFullSignedUrl_def)
  moreover have "take 94 kFullSignedUrl = kUrl"
    by (simp add: kFullSignedUrl_def kUrl_def)
  ultimately show ?thesis
    by (simp add: slice_to_def)
qed

text \<open>
  The steps of \<open>Authenticate\<close> after a successful \<open>CheckSignedUrl\<close>, one case
  distinction for each step that can fail, in the order of the source.
\<close>

lemma Authenticate_steps:
  assumes "CheckSignedUrl rawUrl = Inr (u, vals)" and "vals ''client'' = Some [client]"
  shows "\<exists>sg. vals ''signature'' = Some [sg]
     \<and> Authenticate c rawUrl =
        (case c client of
           None \<Rightarrow> Inl (UnknownClientError client)
         | Some key \<Rightarrow>
        (case strings_LastIndex rawUrl ''&signature='' of
           None \<Rightarrow> Inl (MalformedSignedUrlError rawUrl)
         | Some i \<Rightarrow>
        (case url_Parse (take i rawUrl) of
           None \<Rightarrow> Inl (MalformedUrlError (take i rawUrl))
         | Some u' \<Rightarrow>
        (case CreateSignature u' key of
           Inl e \<Rightarrow> Inl (CreateSignatureError e)
         | Inr s \<Rightarrow> if sg \<noteq> s then Inl (SignatureMismatchError sg s) else Inr (u, vals)))))"
proof -
  from assms(1) have "exactly_one (vals ''signature'')"
    by (simp add: CheckSignedUrl_Inr_iff)
  then obtain sg where sg: "vals ''signature'' = Some [sg]"
    using exactly_one_first_value [of vals "''signature''"] by auto
  have "Authenticate c rawUrl =
        (case c client of
           None \<Rightarrow> Inl (UnknownClientError client)
         | Some key \<Rightarrow>
        (case strings_LastIndex rawUrl ''&signature='' of
           None \<Rightarrow> Inl (MalformedSignedUrlError rawUrl)
         | Some i \<Rightarrow>
        (case url_Parse (take i rawUrl) of
           None \<Rightarrow> Inl (MalformedUrlError (take i rawUrl))
         | Some u' \<Rightarrow>
        (case CreateSignature u' key of
           Inl e \<Rightarrow> Inl (CreateSignatureError e)
         | Inr s \<Rightarrow> if sg \<noteq> s then Inl (SignatureMismatchError sg s) else Inr (u, vals)))))"
    using assms sg
    by (simp add: Authenticate_def first_value_def slice_to_LastIndex
        split: option.splits sum.splits)
  with sg show ?thesis
    by blast
qed

text \<open>
  Inputs that reach each failure of \<open>Authenticate\<close>: a URL with no \<open>&signature=\<close>
  marker although its query has a signature (the signature is the first parameter), a URL
  whose last marker lies inside a bracketed host, so that the text before it does not
  parse, and the reference URL with a wrong signature.
\<close>

lemma marker_free_checked:
  "CheckSignedUrl ''http://company.com?signature=xxx&client=a'' =
     Inr (\<lparr>Scheme = ''http'', Host = ''company.com'', Path = [],
            RawQuery = ''signature=xxx&client=a''\<rparr>,
          [''signature'' \<mapsto> [''xxx''], ''client'' \<mapsto> [''a'']])"
  by (simp add: CheckSignedUrl_def url_eval query_eval)

lemma marker_free_index:
  "strings_LastIndex ''http://company.com?signature=xxx&client=a'' ''&signature='' = None"
  by (simp add: strings_HasPrefix_def)

lemma bracket_checked:
  "CheckSignedUrl ''http://[fe80::1%25&signature=]/p?signature=s&client=a'' =
     Inr (\<lparr>Scheme = ''http'', Host = ''[fe80::1%&signature=]'', Path = ''/p'',
            RawQuery = ''signature=s&client=a''\<rparr>,
          [''signature'' \<mapsto> [''s''], ''client'' \<mapsto> [''a'']])"
  by (simp add: CheckSignedUrl_def url_eval query_eval char_of_def bit_0)

lemma bracket_index:
  "strings_LastIndex ''http://[fe80::1%25&signature=]/p?signature=s&client=a'' ''&signature=''
     = Some 18"
  by (simp add: strings_HasPrefix_def)

lemma bracket_prefix:
  "take 18 ''http://[fe80::1%25&signature=]/p?signature=s&client=a'' = ''http://[fe80::1%25''"
  by simp

lemma bracket_prefix_parse: "url_Parse ''http://[fe80::1%25'' = None"
  by (simp add: url_eval)

lemma mismatch_checked:
  "CheckSignedUrl (kUrl @ ''&signature=AAAA'') =
     Inr (\<lparr>Scheme = ''http'', Host = ''maps.googleapis.com'', Path = ''/maps/api/geocode/json'',
            RawQuery = ''address=New+York&sensor=false&client=clientID&signature=AAAA''\<rparr>,
          [''address'' \<mapsto> [''New York''], ''sensor'' \<mapsto> [''false''],
           ''client'' \<mapsto> [''clientID''], ''signature'' \<mapsto> [''AAAA'']])"
  by (simp add: CheckSignedUrl_def kUrl_def url_eval query_eval)

lemma mismatch_index: "strings_LastIndex (kUrl @ ''&signature=AAAA'') ''&signature='' = Some 94"
  by (simp add: kUrl_def strings_HasPrefix_def)

lemma mismatch_prefix: "take 94 (kUrl @ ''&signature=AAAA'') = kUrl"
  by (simp add: kUrl_def)

lemma kFullSignedUrl_take: "take 94 kFullSignedUrl = kUrl"
  by (simp add: kFullSignedUrl_def kUrl_def)

lemma test_url_checked:
  "CheckSignedUrl ''http://company.com?signature=xxx'' = Inl MissingOrDuplicateClientError"
  by (simp add: CheckSignedUrl_def url_eval query_eval)

text \<open>
  Claim C9. \<open>Authenticate\<close> never panics, and every step that fails gives an error
  and no result: a URL that \<open>CheckSignedUrl\<close> rejects gives that error; a URL that it
  accepts has exactly one client and exactly one signature, and then a client that is not
  in the repository, a raw URL with no \<open>&signature=\<close> marker, a text before the last
  marker that does not parse, a signature that cannot be computed (in particular a key
  that is not URL-safe base64) and a signature different from the computed one each give
  their own error. When every step succeeds and the signature of the URL is the computed
  one, the result is the URL and the query values that \<open>CheckSignedUrl\<close> returned.
  On the signed reference URL with the key \<open>invalidBased64Key\<close> the result is the
  error of the key.
\<close>

theorem C9_Authenticate_returns_errors:
  "Authenticate c rawUrl \<noteq> Inl RuntimePanic
   \<and> (CheckSignedUrl rawUrl = Inl e
        \<longrightarrow> Authenticate c rawUrl = Inl (CheckSignedUrlError e))
   \<and> (CheckSignedUrl rawUrl = Inr (u, vals)
        \<longrightarrow> exactly_one (vals ''client'') \<and> exactly_one (vals ''signature''))
   \<and> (CheckSignedUrl rawUrl = Inr (u, vals) \<and> vals ''client'' = Some [client]
        \<and> c client = None
        \<longrightarrow> Authenticate c rawUrl = Inl (UnknownClientError client))
   \<and> (CheckSignedUrl rawUrl = Inr (u, vals) \<and> vals ''client'' = Some [client]
        \<and> c client = Some key \<and> strings_LastIndex rawUrl ''&signature='' = None
        \<longrightarrow> Authenticate c rawUrl = Inl (MalformedSignedUrlError rawUrl))
   \<and> (CheckSignedUrl rawUrl = Inr (u, vals) \<and> vals ''client'' = Some [client]
        \<and> c client = Some key \<and> strings_LastIndex rawUrl ''&signature='' = Some i
        \<and> url_Parse (take i rawUrl) = None
        \<longrightarrow> Authenticate c rawUrl = Inl (MalformedUrlError (take i rawUrl)))
   \<and> (CheckSignedUrl rawUrl = Inr (u, vals) \<and> vals ''client'' = Some [client]
        \<and> c client = Some key \<and> strings_LastIndex rawUrl ''&signature='' = Some i
        \<and> url_Parse (take i rawUrl) = Some u' \<and> CreateSignature u' key = Inl e'
        \<longrightarrow> Authenticate c rawUrl = Inl (CreateSignatureError e'))
   \<and> (CheckSignedUrl rawUrl = Inr (u, vals) \<and> vals ''client'' = Some [client]
        \<and> c client = Some key \<and> DecodeUrlSafeBase64 key = Inl e''
        \<longrightarrow> isl (Authenticate c rawUrl))
   \<and> (CheckSignedUrl rawUrl = Inr (u, vals) \<and> vals ''client'' = Some [client]
        \<and> c client = Some key \<and> strings_LastIndex rawUrl ''&signature='' = Some i
        \<and> url_Parse (take i rawUrl) = Some u' \<and> CreateSignature u' key = Inr s
        \<and> vals ''signature'' = Some [sg] \<and> sg \<noteq> s
        \<longrightarrow> Authenticate c rawUrl = Inl (SignatureMismatchError sg s))
   \<and> (CheckSignedUrl rawUrl = Inr (u, vals) \<and> vals ''client'' = Some [client]
        \<and> c client = Some key \<and> strings_LastIndex rawUrl ''&signature='' = Some i
        \<and> url_Parse (take i rawUrl) = Some u' \<and> CreateSignature u' key = Inr s
        \<and> vals ''signature'' = Some [s]
        \<longrightarrow> Authenticate c rawUrl = Inr (u, vals))
   \<and> Authenticate [''clientID'' \<mapsto> ''invalidBased64Key''] kFullSignedUrl
        = Inl (CreateSignatureError (InvalidKeyEncodingError DecodeError))"
proof -
  have panic: "Authenticate c rawUrl \<noteq> Inl RuntimePanic"
    by (rule Authenticate_no_panic)
  have structural: "Authenticate c rawUrl = Inl (CheckSignedUrlError e)"
    if "CheckSignedUrl rawUrl = Inl e"
    using that by (simp add: Authenticate_def)
  have counts: "exactly_one (vals ''client'') \<and> exactly_one (vals ''signature'')"
    if "CheckSignedUrl rawUrl = Inr (u, vals)"
    using that by (simp add: CheckSignedUrl_Inr_iff)
  have unknown: "Authenticate c rawUrl = Inl (UnknownClientError client)"
    if "CheckSignedUrl rawUrl = Inr (u, vals)" "vals ''client'' = Some [client]" "c client = None"
    using Authenticate_steps [OF that(1,2), of c] that(3) by auto
  have marker: "Authenticate c rawUrl = Inl (MalformedSignedUrlError rawUrl)"
    if "CheckSignedUrl rawUrl = Inr (u, vals)" "vals ''client'' = Some [client]"
      "c client = Some key" "strings_LastIndex rawUrl ''&signature='' = None"
    using Authenticate_steps [OF that(1,2), of c] that(3,4) by auto
  have reparse: "Authenticate c rawUrl = Inl (MalformedUrlError (take i rawUrl))"
    if "CheckSignedUrl rawUrl = Inr (u, vals)" "vals ''client'' = Some [client]"
      "c client = Some key" "strings_LastIndex rawUrl ''&signature='' = Some i"
      "url_Parse (take i rawUrl) = None"
    using Authenticate_steps [OF that(1,2), of c] that(3,4,5) by auto
  have signing: "Authenticate c rawUrl = Inl (CreateSignatureError e')"
    if "CheckSignedUrl rawUrl = Inr (u, vals)" "vals ''client'' = Some [client]"
      "c client = Some key" "strings_LastIndex rawUrl ''&signature='' = Some i"
      "url_Parse (take i rawUrl) = Some u'" "CreateSignature u' key = Inl e'"
    using Authenticate_steps [OF that(1,2), of c] that(3,4,5,6) by auto
  have badkey: "isl (Authenticate c rawUrl)"
    if "CheckSignedUrl rawUrl = Inr (u, vals)" "vals ''client'' = Some [client]"
      "c client = Some key" "DecodeUrlSafeBase64 key = Inl e''"
  proof -
    from Authenticate_steps [OF that(1,2), of c] that(3)
    obtain sg0 where "Authenticate c rawUrl =
        (case strings_LastIndex rawUrl ''&signature='' of
           None \<Rightarrow> Inl (MalformedSignedUrlError rawUrl)
         | Some i \<Rightarrow>
        (case url_Parse (take i rawUrl) of
           None \<Rightarrow> Inl (MalformedUrlError (take i rawUrl))
         | Some u' \<Rightarrow>
        (case CreateSignature u' key of
           Inl e \<Rightarrow> Inl (CreateSignatureError e)
         | Inr s \<Rightarrow> if sg0 \<noteq> s then Inl (SignatureMismatchError sg0 s) else Inr (u, vals))))"
      by auto
    moreover have "\<not> CreateSignature w key = Inr x" for w x
      using CreateSignature_invalid_key [OF that(4), of w] by auto
    ultimately show ?thesis
      by (simp split: option.splits sum.splits)
  qed
  have mismatch: "Authenticate c rawUrl = Inl (SignatureMismatchError sg s)"
    if "CheckSignedUrl rawUrl = Inr (u, vals)" "vals ''client'' = Some [client]"
      "c client = Some key" "strings_LastIndex rawUrl ''&signature='' = Some i"
      "url_Parse (take i rawUrl) = Some u'" "CreateSignature u' key = Inr s"
      "vals ''signature'' = Some [sg]" "sg \<noteq> s"
    using Authenticate_steps [OF that(1,2), of c] that(3,4,5,6,7,8) by auto
  have accept: "Authenticate c rawUrl = Inr (u, vals)"
    if "CheckSignedUrl rawUrl = Inr (u, vals)" "vals ''client'' = Some [client]"
      "c client = Some key" "strings_LastIndex rawUrl ''&signature='' = Some i"
      "url_Parse (take i rawUrl) = Some u'" "CreateSignature u' key = Inr s"
      "vals ''signature'' = Some [s]"
    using Authenticate_steps [OF that(1,2), of c] that(3,4,5,6,7) by auto
  have k: "CreateSignature \<lparr>Scheme = ''http'', Host = ''maps.googleapis.com'',
     Path = ''/maps/api/geocode/json'',
     RawQuery = ''address=New+York&sensor=false&client=clientID''\<rparr> ''invalidBased64Key''
      = Inl (InvalidKeyEncodingError DecodeError)"
    by (simp add: CreateSignature_def kUrl_query invalid_key_decoded)
  have test: "Authenticate [''clientID'' \<mapsto> ''invalidBased64Key''] kFullSignedUrl
        = Inl (CreateSignatureError (InvalidKeyEncodingError DecodeError))"
    by (simp add: Authenticate_def kFullSignedUrl_checked first_value_def kFullSignedUrl_marker
        kFullSignedUrl_prefix kUrl_parsed k)
  from panic structural counts unknown marker reparse signing badkey mismatch accept test
  show ?thesis
    by (intro conjI impI; (elim conjE)?) blast+
qed

text \<open>
  Claim C9, witness: every implication of the theorem at an input that satisfies its
  premise: the test URL with no
  client, the signed reference URL with a repository that lacks the client, with the key
  \<open>invalidBased64Key\<close> and with the reference key, a URL with no marker, a URL whose
  prefix does not parse, and the reference URL signed with \<open>AAAA\<close>.
\<close>

theorem C9_witness:
  "CheckSignedUrl ''http://company.com?signature=xxx'' = Inl MissingOrDuplicateClientError
   \<and> Authenticate [''clientID'' \<mapsto> kPrivateKey] ''http://company.com?signature=xxx''
       = Inl (CheckSignedUrlError MissingOrDuplicateClientError)
   \<and> CheckSignedUrl kFullSignedUrl =
       Inr (\<lparr>Scheme = ''http'', Host = ''maps.googleapis.com'', Path = ''/maps/api/geocode/json'',
             RawQuery = ''address=New+York&sensor=false&client=clientID&signature=KrU1TzVQM7Ur0i8i7K3huiw3MsA=''\<rparr>,
            [''address'' \<mapsto> [''New York''], ''sensor'' \<mapsto> [''false''], ''client'' \<mapsto> [''clientID''],
             ''signature'' \<mapsto> [''KrU1TzVQM7Ur0i8i7K3huiw3MsA='']])
   \<and> exactly_one ([''address'' \<mapsto> [''New York''], ''sensor'' \<mapsto> [''false''], ''client'' \<mapsto> [''clientID''],
             ''signature'' \<mapsto> [''KrU1TzVQM7Ur0i8i7K3huiw3MsA='']] ''client'')
   \<and> exactly_one ([''address'' \<mapsto> [''New York''], ''sensor'' \<mapsto> [''false''], ''client'' \<mapsto> [''clientID''],
             ''signature'' \<mapsto> [''KrU1TzVQM7Ur0i8i7K3huiw3MsA='']] ''signature'')
   \<and> [''yiw'' \<mapsto> ''something''] ''clientID'' = None
   \<and> Authenticate [''yiw'' \<mapsto> ''something''] kFullSignedUrl = Inl (UnknownClientError ''clientID'')
   \<and> CheckSignedUrl ''http://company.com?signature=xxx&client=a'' =
       Inr (\<lparr>Scheme = ''http'', Host = ''company.com'', Path = [],
              RawQuery = ''signature=xxx&client=a''\<rparr>,
            [''signature'' \<mapsto> [''xxx''], ''client'' \<mapsto> [''a'']])
   \<and> strings_LastIndex ''http://company.com?signature=xxx&client=a'' ''&signature='' = None
   \<and> Authenticate [''a'' \<mapsto> kPrivateKey] ''http://company.com?signature=xxx&client=a''
       = Inl (MalformedSignedUrlError ''http://company.com?signature=xxx&client=a'')
   \<and> CheckSignedUrl ''http://[fe80::1%25&signature=]/p?signature=s&client=a'' =
       Inr (\<lparr>Scheme = ''http'', Host = ''[fe80::1%&signature=]'', Path = ''/p'',
              RawQuery = ''signature=s&client=a''\<rparr>,
            [''signature'' \<mapsto> [''s''], ''client'' \<mapsto> [''a'']])
   \<and> strings_LastIndex ''http://[fe80::1%25&signature=]/p?signature=s&client=a'' ''&signature=''
       = Some 18
   \<and> url_Parse (take 18 ''http://[fe80::1%25&signature=]/p?signature=s&client=a'') = None
   \<and> Authenticate [''a'' \<mapsto> kPrivateKey] ''http://[fe80::1%25&signature=]/p?signature=s&client=a''
       = Inl (MalformedUrlError ''http://[fe80::1%25'')
   \<and> strings_LastIndex kFullSignedUrl ''&signature='' = Some 94
   \<and> url_Parse (take 94 kFullSignedUrl) = Some \<lparr>Scheme = ''http'', Host = ''maps.googleapis.com'',
         Path = ''/maps/api/geocode/json'',
         RawQuery = ''address=New+York&sensor=false&client=clientID''\<rparr>
   \<and> DecodeUrlSafeBase64 ''invalidBased64Key'' = Inl DecodeError
   \<and> CreateSignature \<lparr>Scheme = ''http'', Host = ''maps.googleapis.com'',
         Path = ''/maps/api/geocode/json'',
         RawQuery = ''address=New+York&sensor=false&client=clientID''\<rparr> ''invalidBased64Key''
       = Inl (InvalidKeyEncodingError DecodeError)
   \<and> Authenticate [''clientID'' \<mapsto> ''invalidBased64Key''] kFullSignedUrl
       = Inl (CreateSignatureError (InvalidKeyEncodingError DecodeError))
   \<and> isl (Authenticate [''clientID'' \<mapsto> ''invalidBased64Key''] kFullSignedUrl)
   \<and> CheckSignedUrl (kUrl @ ''&signature=AAAA'') =
       Inr (\<lparr>Scheme = ''http'', Host = ''maps.googleapis.com'', Path = ''/maps/api/geocode/json'',
              RawQuery = ''address=New+York&sensor=false&client=clientID&signature=AAAA''\<rparr>,
            [''address'' \<mapsto> [''New York''], ''sensor'' \<mapsto> [''false''],
             ''client'' \<mapsto> [''clientID''], ''signature'' \<mapsto> [''AAAA'']])
   \<and> strings_LastIndex (kUrl @ ''&signature=AAAA'') ''&signature='' = Some 94
   \<and> url_Parse (take 94 (kUrl @ ''&signature=AAAA'')) = Some \<lparr>Scheme = ''http'',
         Host = ''maps.googleapis.com'', Path = ''/maps/api/geocode/json'',
         RawQuery = ''address=New+York&sensor=false&client=clientID''\<rparr>
   \<and> CreateSignature \<lparr>Scheme = ''http'', Host = ''maps.googleapis.com'',
         Path = ''/maps/api/geocode/json'',
         RawQuery = ''address=New+York&sensor=false&client=clientID''\<rparr> kPrivateKey
       = Inr kSignature
   \<and> ''AAAA'' \<noteq> kSignature
   \<and> Authenticate [''clientID'' \<mapsto> kPrivateKey] (kUrl @ ''&signature=AAAA'')
       = Inl (SignatureMismatchError ''AAAA'' kSignature)
   \<and> Authenticate [''clientID'' \<mapsto> kPrivateKey] kFullSignedUrl =
       Inr (\<lparr>Scheme = ''http'', Host = ''maps.googleapis.com'', Path = ''/maps/api/geocode/json'',
             RawQuery = ''address=New+York&sensor=false&client=clientID&signature=KrU1TzVQM7Ur0i8i7K3huiw3MsA=''\<rparr>,
            [''address'' \<mapsto> [''New York''], ''sensor'' \<mapsto> [''false''], ''client'' \<mapsto> [''clientID''],
             ''signature'' \<mapsto> [''KrU1TzVQM7Ur0i8i7K3huiw3MsA='']])"
proof -
  let ?ref = "\<lparr>Scheme = ''http'', Host = ''maps.googleapis.com'', Path = ''/maps/api/geocode/json'',
     RawQuery = ''address=New+York&sensor=false&client=clientID''\<rparr>"
  let ?full = "\<lparr>Scheme = ''http'', Host = ''maps.googleapis.com'', Path = ''/maps/api/geocode/json'',
     RawQuery = ''address=New+York&sensor=false&client=clientID&signature=KrU1TzVQM7Ur0i8i7K3huiw3MsA=''\<rparr>"
  let ?vals = "[''address'' \<mapsto> [''New York''], ''sensor'' \<mapsto> [''false''], ''client'' \<mapsto> [''clientID''],
     ''signature'' \<mapsto> [''KrU1TzVQM7Ur0i8i7K3huiw3MsA='']]"
  have p94: "url_Parse (take 94 kFullSignedUrl) = Some ?ref"
    by (simp add: kFullSignedUrl_take kUrl_parsed)
  have q94: "url_Parse (take 94 (kUrl @ ''&signature=AAAA'')) = Some ?ref"
    by (simp only: mismatch_prefix kUrl_parsed)
  have p18: "url_Parse (take 18 ''http://[fe80::1%25&signature=]/p?signature=s&client=a'') = None"
    by (simp only: bracket_prefix bracket_prefix_parse)
  have bad: "CreateSignature ?ref ''invalidBased64Key'' = Inl (InvalidKeyEncodingError DecodeError)"
    by (simp add: CreateSignature_def kUrl_query invalid_key_decoded)
  have ne: "''AAAA'' \<noteq> kSignature"
    by (simp add: kSignature_def)
  have w1: "Authenticate [''clientID'' \<mapsto> kPrivateKey] ''http://company.com?signature=xxx''
       = Inl (CheckSignedUrlError MissingOrDuplicateClientError)"
    using C9_Authenticate_returns_errors [where rawUrl = "''http://company.com?signature=xxx''"
        and e = MissingOrDuplicateClientError and c = "[''clientID'' \<mapsto> kPrivateKey]",
        THEN conjunct2, THEN conjunct1] test_url_checked
    by simp
  have w2: "exactly_one (?vals ''client'') \<and> exactly_one (?vals ''signature'')"
    using C9_Authenticate_returns_errors [where rawUrl = kFullSignedUrl and u = ?full and vals = ?vals,
        THEN conjunct2, THEN conjunct2, THEN conjunct1] kFullSignedUrl_checked
    by simp
  have w3: "Authenticate [''yiw'' \<mapsto> ''something''] kFullSignedUrl = Inl (UnknownClientError ''clientID'')"
    using C9_Authenticate_returns_errors [where rawUrl = kFullSignedUrl and u = ?full and vals = ?vals
        and client = "''clientID''" and c = "[''yiw'' \<mapsto> ''something'']",
        THEN conjunct2, THEN conjunct2, THEN conjunct2, THEN conjunct1]
      kFullSignedUrl_checked
    by simp
  have w4: "Authenticate [''a'' \<mapsto> kPrivateKey] ''http://company.com?signature=xxx&client=a''
       = Inl (MalformedSignedUrlError ''http://company.com?signature=xxx&client=a'')"
    using C9_Authenticate_returns_errors [where rawUrl = "''http://company.com?signature=xxx&client=a''"
        and c = "[''a'' \<mapsto> kPrivateKey]" and client = "''a''" and key = kPrivateKey
        and u = "\<lparr>Scheme = ''http'', Host = ''company.com'', Path = [],
              RawQuery = ''signature=xxx&client=a''\<rparr>"
        and vals = "[''signature'' \<mapsto> [''xxx''], ''client'' \<mapsto> [''a'']]",
        THEN conjunct2, THEN conjunct2, THEN conjunct2, THEN conjunct2, THEN conjunct1]
      marker_free_checked marker_free_index
    by simp
  have w5: "Authenticate [''a'' \<mapsto> kPrivateKey] ''http://[fe80::1%25&signature=]/p?signature=s&client=a''
       = Inl (MalformedUrlError ''http://[fe80::1%25'')"
    using C9_Authenticate_returns_errors [where rawUrl = "''http://[fe80::1%25&signature=]/p?signature=s&client=a''"
        and c = "[''a'' \<mapsto> kPrivateKey]" and client = "''a''" and key = kPrivateKey
        and i = 18
        and u = "\<lparr>Scheme = ''http'', Host = ''[fe80::1%&signature=]'', Path = ''/p'',
              RawQuery = ''signature=s&client=a''\<rparr>"
        and vals = "[''signature'' \<mapsto> [''s''], ''client'' \<mapsto> [''a'']]",
        THEN conjunct2, THEN conjunct2, THEN conjunct2, THEN conjunct2, THEN conjunct2, THEN conjunct1]
      bracket_checked bracket_index p18 bracket_prefix
    by simp
  have w6: "Authenticate [''clientID'' \<mapsto> ''invalidBased64Key''] kFullSignedUrl
       = Inl (CreateSignatureError (InvalidKeyEncodingError DecodeError))"
    using C9_Authenticate_returns_errors [where rawUrl = kFullSignedUrl
        and c = "[''clientID'' \<mapsto> ''invalidBased64Key'']" and client = "''clientID''"
        and key = "''invalidBased64Key''" and i = 94 and u = ?full and vals = ?vals
        and u' = ?ref and e' = "InvalidKeyEncodingError DecodeError",
        THEN conjunct2, THEN conjunct2, THEN conjunct2, THEN conjunct2, THEN conjunct2, THEN conjunct2, THEN conjunct1]
      kFullSignedUrl_checked kFullSignedUrl_marker p94 bad
    by simp
  have w7: "isl (Authenticate [''clientID'' \<mapsto> ''invalidBased64Key''] kFullSignedUrl)"
    using C9_Authenticate_returns_errors [where rawUrl = kFullSignedUrl
        and c = "[''clientID'' \<mapsto> ''invalidBased64Key'']" and client = "''clientID''"
        and key = "''invalidBased64Key''" and u = ?full and vals = ?vals and e'' = DecodeError,
        THEN conjunct2, THEN conjunct2, THEN conjunct2, THEN conjunct2, THEN conjunct2, THEN conjunct2, THEN conjunct2, THEN conjunct1]
      kFullSignedUrl_checked invalid_key_decoded
    by simp
  have w8: "Authenticate [''clientID'' \<mapsto> kPrivateKey] (kUrl @ ''&signature=AAAA'')
       = Inl (SignatureMismatchError ''AAAA'' kSignature)"
    using C9_Authenticate_returns_errors [where rawUrl = "kUrl @ ''&signature=AAAA''"
        and c = "[''clientID'' \<mapsto> kPrivateKey]" and client = "''clientID''"
        and key = kPrivateKey and i = 94 and u' = ?ref and s = kSignature and sg = "''AAAA''"
        and u = "\<lparr>Scheme = ''http'', Host = ''maps.googleapis.com'', Path = ''/maps/api/geocode/json'',
              RawQuery = ''address=New+York&sensor=false&client=clientID&signature=AAAA''\<rparr>"
        and vals = "[''address'' \<mapsto> [''New York''], ''sensor'' \<mapsto> [''false''],
             ''client'' \<mapsto> [''clientID''], ''signature'' \<mapsto> [''AAAA'']]",
        THEN conjunct2, THEN conjunct2, THEN conjunct2, THEN conjunct2, THEN conjunct2, THEN conjunct2, THEN conjunct2, THEN conjunct2, THEN conjunct1]
      mismatch_checked mismatch_index q94 kUrl_CreateSignature ne
    by simp
  have w9: "Authenticate [''clientID'' \<mapsto> kPrivateKey] kFullSignedUrl = Inr (?full, ?vals)"
    using C9_Authenticate_returns_errors [where rawUrl = kFullSignedUrl
        and c = "[''clientID'' \<mapsto> kPrivateKey]" and client = "''clientID''"
        and key = kPrivateKey and i = 94 and u' = ?ref and s = kSignature
        and u = ?full and vals = ?vals,
        THEN conjunct2, THEN conjunct2, THEN conjunct2, THEN conjunct2, THEN conjunct2, THEN conjunct2, THEN conjunct2, THEN conjunct2, THEN conjunct2, THEN conjunct1]
      kFullSignedUrl_checked kFullSignedUrl_marker p94 kUrl_CreateSignature
    by (simp add: kSignature_def)
  have m1: "[''yiw'' \<mapsto> ''something''] ''clientID'' = None"
    by simp
  from test_url_checked w1 kFullSignedUrl_checked w2 m1 w3 marker_free_checked marker_free_index
    w4 bracket_checked bracket_index p18 w5 kFullSignedUrl_marker p94 invalid_key_decoded bad w6
    w7 mismatch_checked mismatch_index q94 kUrl_CreateSignature ne w8 w9
  show ?thesis
    by (intro conjI) (erule conjunct1 conjunct2 | assumption)+
qed

section \<open>strings.Cut and getScheme\<close>

lemma strings_Cut_notin: "c \<notin> set s \<Longrightarrow> strings_Cut s c = (s, [])"
  by (induction s) (auto simp: strings_Cut_def)

lemma strings_Cut_append_notin:
  "c \<notin> set a \<Longrightarrow> strings_Cut (a @ s) c = (a @ fst (strings_Cut s c), snd (strings_Cut s c))"
  by (induction a) (auto simp: strings_Cut_def)

lemma strings_Cut_append_in:
  assumes "c \<in> set a"
  shows "strings_Cut (a @ t) c = (fst (strings_Cut a c), snd (strings_Cut a c) @ t)"
proof -
  from assms have "dropWhile (\<lambda>x. x \<noteq> c) a \<noteq> []"
    by (simp add: dropWhile_eq_Nil_conv)
  then have "drop 1 (dropWhile (\<lambda>x. x \<noteq> c) a @ t) = drop 1 (dropWhile (\<lambda>x. x \<noteq> c) a) @ t"
    by (cases "dropWhile (\<lambda>x. x \<noteq> c) a") simp_all
  with assms show ?thesis
    by (simp add: strings_Cut_def)
qed

lemma strings_Cut_Cons_sep: "strings_Cut (c # s) c = ([], s)"
  by (simp add: strings_Cut_def)

lemma fst_strings_Cut_notin: "c \<notin> set (fst (strings_Cut s c))"
  by (auto simp: strings_Cut_def dest: set_takeWhileD)

lemma strings_Cut_decompose:
  "c \<in> set s \<Longrightarrow> s = fst (strings_Cut s c) @ c # snd (strings_Cut s c)"
proof (induction s)
  case Nil
  then show ?case by simp
next
  case (Cons x xs)
  then show ?case
    by (cases "x = c") (auto simp: strings_Cut_def)
qed

lemma split_query_eq: "split_query rest = strings_Cut rest CHR ''?''"
proof (cases "rest \<noteq> [] \<and> last rest = CHR ''?'' \<and> count_list rest CHR ''?'' = 1")
  case True
  then have r: "rest = butlast rest @ [CHR ''?'']"
    by (metis append_butlast_last_id)
  with True have "count_list (butlast rest @ [CHR ''?'']) CHR ''?'' = 1"
    by simp
  then have "count_list (butlast rest) CHR ''?'' = 0"
    by simp
  then have "CHR ''?'' \<notin> set (butlast rest)"
    by (simp add: count_list_0_iff)
  from strings_Cut_append_notin [OF this, of "[CHR ''?'']"]
  have "strings_Cut (butlast rest @ [CHR ''?'']) CHR ''?'' = (butlast rest, [])"
    by (simp add: strings_Cut_Cons_sep)
  with r True show ?thesis
    by (simp add: split_query_def)
next
  case False
  then show ?thesis
    by (auto simp: split_query_def)
qed

lemma scheme_char_not_special:
  "scheme_char c \<Longrightarrow> c \<noteq> CHR ''?'' \<and> c \<noteq> CHR ''#'' \<and> c \<noteq> CHR '':'' \<and> c \<noteq> CHR ''/''
     \<and> \<not> (ord c < 0x20 \<or> ord c = 0x7f)"
  by (auto simp: scheme_char_def is_lower_def is_upper_def is_digit_def ord_def)

lemma getScheme_from_Some:
  assumes "getScheme_from raw seen cs = Some (sch, rest)"
  shows "(sch = [] \<and> rest = raw)
       \<or> (\<exists>pre. cs = pre @ CHR '':'' # rest \<and> sch = seen @ pre \<and> sch \<noteq> [] \<and> list_all scheme_char pre)"
  using assms
proof (induction cs arbitrary: seen)
  case Nil
  then show ?case by simp
next
  case (Cons c cs)
  consider (letter) "is_lower c \<or> is_upper c"
    | (digit) "\<not> (is_lower c \<or> is_upper c)" "is_digit c \<or> c \<in> set ''+-.''"
    | (colon) "\<not> (is_lower c \<or> is_upper c)" "\<not> (is_digit c \<or> c \<in> set ''+-.'')" "c = CHR '':''"
    | (other) "\<not> (is_lower c \<or> is_upper c)" "\<not> (is_digit c \<or> c \<in> set ''+-.'')" "c \<noteq> CHR '':''"
    by blast
  then show ?case
  proof cases
    case letter
    with Cons.prems have "getScheme_from raw (seen @ [c]) cs = Some (sch, rest)"
      by simp
    from Cons.IH [OF this] letter show ?thesis
      by (auto simp: scheme_char_def)
  next
    case digit
    show ?thesis
    proof (cases "seen = []")
      case True
      with digit Cons.prems show ?thesis
        by auto
    next
      case False
      with digit Cons.prems have "getScheme_from raw (seen @ [c]) cs = Some (sch, rest)"
        by auto
      from Cons.IH [OF this] digit show ?thesis
        by (auto simp: scheme_char_def)
    qed
  next
    case colon
    with Cons.prems show ?thesis
      by (auto split: if_splits)
  next
    case other
    with Cons.prems show ?thesis
      by auto
  qed
qed

lemma getScheme_Some:
  assumes "getScheme raw = Some (sch, rest)"
  shows "(sch = [] \<and> rest = raw)
       \<or> (raw = sch @ CHR '':'' # rest \<and> sch \<noteq> [] \<and> list_all scheme_char sch)"
  using getScheme_from_Some [of raw "[]" raw sch rest] assms
  by (auto simp: getScheme_def)

lemma getScheme_from_valid:
  assumes "list_all scheme_char pre"
    and "seen \<noteq> [] \<or> (pre \<noteq> [] \<and> (is_lower (hd pre) \<or> is_upper (hd pre)))"
  shows "getScheme_from raw seen (pre @ CHR '':'' # rest) = Some (seen @ pre, rest)"
  using assms
proof (induction pre arbitrary: seen)
  case Nil
  then show ?case
    by (simp add: is_lower_def is_upper_def is_digit_def ord_def)
next
  case (Cons c pre)
  from Cons.prems(1) have c: "scheme_char c" and pre: "list_all scheme_char pre"
    by simp_all
  have ih: "getScheme_from raw (seen @ [c]) (pre @ CHR '':'' # rest) = Some ((seen @ [c]) @ pre, rest)"
    by (rule Cons.IH [OF pre]) simp
  show ?case
  proof (cases "is_lower c \<or> is_upper c")
    case True
    with ih show ?thesis by simp
  next
    case False
    with Cons.prems(2) have "seen \<noteq> []"
      by auto
    moreover from False c have "is_digit c \<or> c \<in> set ''+-.''"
      by (simp add: scheme_char_def)
    ultimately show ?thesis
      using False ih by simp
  qed
qed

lemma getScheme_valid:
  "valid_scheme s \<Longrightarrow> getScheme (s @ CHR '':'' # rest) = Some (s, rest)"
  using getScheme_from_valid [of s "[]" "s @ CHR '':'' # rest" rest]
  by (simp add: getScheme_def valid_scheme_def)

section \<open>url.Parse on a URL with a scheme and an authority\<close>

lemma parse_rest_RawQuery: "parse_rest scheme rest q = Some u \<Longrightarrow> RawQuery u = q"
  by (auto simp: parse_rest_def split: if_splits option.splits prod.splits)

lemma getScheme_rest_query:
  assumes "getScheme raw = Some (sch, rest)"
  shows "snd (strings_Cut rest CHR ''?'') = snd (strings_Cut raw CHR ''?'')"
proof -
  from getScheme_Some [OF assms] show ?thesis
  proof
    assume "sch = [] \<and> rest = raw"
    then show ?thesis by simp
  next
    assume a: "raw = sch @ CHR '':'' # rest \<and> sch \<noteq> [] \<and> list_all scheme_char sch"
    then have "CHR ''?'' \<notin> set (sch @ [CHR '':''])"
      using scheme_char_not_special by (auto simp: list_all_iff)
    from strings_Cut_append_notin [OF this, of rest] a show ?thesis
      by simp
  qed
qed

lemma parse_RawQuery:
  assumes "parse r = Some u"
  shows "RawQuery u = snd (strings_Cut r CHR ''?'')"
proof (cases "r = ''*''")
  case True
  with assms show ?thesis
    by (auto simp: parse_def strings_Cut_def split: if_splits)
next
  case False
  with assms obtain sch rest0 where g: "getScheme r = Some (sch, rest0)"
    by (auto simp: parse_def split: if_splits option.splits)
  with assms False
  have "parse_rest (strings_ToLower sch) (fst (strings_Cut rest0 CHR ''?''))
          (snd (strings_Cut rest0 CHR ''?'')) = Some u"
    by (auto simp: parse_def split_query_eq split: if_splits prod.splits)
  from parse_rest_RawQuery [OF this] getScheme_rest_query [OF g] show ?thesis
    by simp
qed

lemma url_Parse_Some:
  "url_Parse s = Some u \<Longrightarrow> parse (fst (strings_Cut s CHR ''#'')) = Some u"
  by (auto simp: url_Parse_def split: prod.splits option.splits if_splits)

lemma url_Parse_RawQuery: "url_Parse s = Some u \<Longrightarrow> RawQuery u = query_part s"
  unfolding query_part_def by (rule parse_RawQuery) (rule url_Parse_Some)

lemma url_Parse_no_fragment:
  "CHR ''#'' \<notin> set s \<Longrightarrow> url_Parse s = parse s"
  by (simp add: url_Parse_def strings_Cut_notin split: option.splits)

lemma stringContainsCTLByte_append:
  "stringContainsCTLByte (a @ b) \<longleftrightarrow> stringContainsCTLByte a \<or> stringContainsCTLByte b"
  by (auto simp: stringContainsCTLByte_def)

lemma strings_ToLower_Nil_iff: "strings_ToLower s = [] \<longleftrightarrow> s = []"
  by (simp add: strings_ToLower_def)

lemma valid_scheme_special:
  assumes "valid_scheme s"
  shows "s \<noteq> []" and "CHR ''?'' \<notin> set s" and "CHR ''#'' \<notin> set s" and "CHR ''/'' \<notin> set s"
    and "\<not> stringContainsCTLByte s"
  using assms scheme_char_not_special
  by (auto simp: valid_scheme_def list_all_iff stringContainsCTLByte_def)

lemma plain_authority_special:
  assumes "plain_authority a"
  shows "CHR ''?'' \<notin> set a" and "CHR ''#'' \<notin> set a" and "CHR ''/'' \<notin> set a"
    and "\<not> stringContainsCTLByte a" and "\<exists>h. parseAuthority a = Some h"
  using assms by (auto simp: plain_authority_def list_all_iff)

lemma parse_authority_form:
  assumes s: "valid_scheme s" and a: "plain_authority a" and b: "b = [] \<or> hd b \<in> set ''/?''"
  shows "parse (s @ ''://'' @ a @ b) =
     (if stringContainsCTLByte b then None
      else (case unescape (fst (strings_Cut b CHR ''?'')) encodePath of
              None \<Rightarrow> None
            | Some p \<Rightarrow> Some \<lparr>Scheme = strings_ToLower s, Host = the (parseAuthority a), Path = p,
                 RawQuery = snd (strings_Cut b CHR ''?'')\<rparr>))"
proof -
  note sp = valid_scheme_special [OF s]
  note ap = plain_authority_special [OF a]
  from ap(5) obtain h where h: "parseAuthority a = Some h"
    by blast
  let ?rest = "fst (strings_Cut b CHR ''?'')"
  have star: "s @ ''://'' @ a @ b \<noteq> ''*''"
    using sp(1) by (cases s) auto
  have g: "getScheme (s @ ''://'' @ a @ b) = Some (s, ''//'' @ a @ b)"
    using getScheme_valid [OF s, of "''//'' @ a @ b"] by simp
  have "CHR ''?'' \<notin> set (''//'' @ a)"
    using ap(1) by simp
  from strings_Cut_append_notin [OF this, of b]
  have q: "split_query (''//'' @ a @ b) = (''//'' @ a @ ?rest, snd (strings_Cut b CHR ''?''))"
    by (simp add: split_query_eq)
  have rest: "?rest = [] \<or> hd ?rest = CHR ''/''"
    using b by (cases b) (auto simp: strings_Cut_def)
  then have "fst (strings_Cut ?rest CHR ''/'') = []"
    by (cases ?rest) (auto simp: strings_Cut_def)
  with strings_Cut_append_notin [OF ap(3), of ?rest]
  have auth: "strings_Cut (a @ ?rest) CHR ''/'' = (a, snd (strings_Cut ?rest CHR ''/''))"
    by simp
  have pr: "parse_rest (strings_ToLower s) (''//'' @ a @ ?rest) q =
     (case unescape ?rest encodePath of
        None \<Rightarrow> None
      | Some p \<Rightarrow> Some \<lparr>Scheme = strings_ToLower s, Host = h, Path = p, RawQuery = q\<rparr>)" for q
    using sp(1) auth h
    by (simp add: parse_rest_def strings_HasPrefix_def strings_ToLower_Nil_iff)
  have ctl: "stringContainsCTLByte (s @ ''://'' @ a @ b) = stringContainsCTLByte b"
    using sp(5) ap(4) by (auto simp: stringContainsCTLByte_def ord_def)
  show ?thesis
    unfolding parse_def ctl h option.sel using star g q pr
    by simp
qed

lemma url_Parse_authority_form:
  assumes s: "valid_scheme s" and a: "plain_authority a" and t: "t = [] \<or> hd t \<in> set ''/?#''"
  shows "url_Parse (s @ ''://'' @ a @ t) =
     (case strings_Cut t CHR ''#'' of (b, frag) \<Rightarrow>
        if stringContainsCTLByte b then None
        else (case unescape (fst (strings_Cut b CHR ''?'')) encodePath of
                None \<Rightarrow> None
              | Some p \<Rightarrow>
                  if frag \<noteq> [] \<and> unescape frag encodeFragment = None then None
                  else Some \<lparr>Scheme = strings_ToLower s, Host = the (parseAuthority a), Path = p,
                     RawQuery = snd (strings_Cut b CHR ''?'')\<rparr>))"
proof -
  note sp = valid_scheme_special [OF s]
  note ap = plain_authority_special [OF a]
  let ?b = "fst (strings_Cut t CHR ''#'')"
  have "CHR ''#'' \<notin> set (s @ ''://'' @ a)"
    using sp(3) ap(2) by simp
  from strings_Cut_append_notin [OF this, of t]
  have c: "strings_Cut (s @ ''://'' @ a @ t) CHR ''#'' = (s @ ''://'' @ a @ ?b, snd (strings_Cut t CHR ''#''))"
    by simp
  have b: "?b = [] \<or> hd ?b \<in> set ''/?''"
    using t by (cases t) (auto simp: strings_Cut_def)
  show ?thesis
    unfolding url_Parse_def c prod.case parse_authority_form [OF s a b]
    by (cases "strings_Cut t CHR ''#''") (auto split: option.splits)
qed

lemma url_Parse_replace_authority:
  assumes "valid_scheme s1" and "plain_authority a1" and "valid_scheme s2" and "plain_authority a2"
    and "t = [] \<or> hd t \<in> set ''/?#''"
  shows "url_Parse (s2 @ ''://'' @ a2 @ t) =
     map_option (\<lambda>u. u\<lparr>Scheme := strings_ToLower s2, Host := the (parseAuthority a2)\<rparr>)
       (url_Parse (s1 @ ''://'' @ a1 @ t))"
  unfolding url_Parse_authority_form [OF assms(1,2,5)] url_Parse_authority_form [OF assms(3,4,5)]
  by (auto split: prod.splits option.splits)

section \<open>Replacing the scheme and the host\<close>

lemma url_ParseQuery_Nil: "url_ParseQuery [] = Some Map.empty"
  by (simp add: url_ParseQuery_def)

lemma query_part_question: "query_part s \<noteq> [] \<Longrightarrow> CHR ''?'' \<in> set s"
proof (rule ccontr)
  assume q: "query_part s \<noteq> []" and n: "CHR ''?'' \<notin> set s"
  have "set (fst (strings_Cut s CHR ''#'')) \<subseteq> set s"
    by (auto simp: strings_Cut_def dest: set_takeWhileD)
  with n have "CHR ''?'' \<notin> set (fst (strings_Cut s CHR ''#''))"
    by blast
  from strings_Cut_notin [OF this] q show False
    by (simp add: query_part_def)
qed

lemma CreateSignature_question:
  assumes "url_Parse x = Some u" and "CreateSignature u key = Inr sg"
  shows "CHR ''?'' \<in> set x"
proof -
  from assms(2) obtain vals where "url_ParseQuery (RawQuery u) = Some vals" "vals ''client'' \<noteq> None"
    unfolding CreateSignature_Inr_iff by blast
  then have "RawQuery u \<noteq> []"
    by (auto simp: url_ParseQuery_Nil)
  with url_Parse_RawQuery [OF assms(1)] show ?thesis
    by (simp add: query_part_question)
qed

lemma CreateSignature_cong:
  assumes "Path u1 = Path u2" and "RawQuery u1 = RawQuery u2"
  shows "CreateSignature u1 k = CreateSignature u2 k"
  unfolding CreateSignature_def assms by (rule refl)

lemma take_length_append: "take (length p + j) (p @ t) = p @ take j t"
  by simp

lemma marker_in_tail:
  assumes idx: "strings_LastIndex (p @ t) m = Some i"
    and q: "CHR ''?'' \<in> set (take i (p @ t))" and nq: "CHR ''?'' \<notin> set p"
  shows "\<exists>j. i = length p + j \<and> 0 < j \<and> strings_LastIndex t m = Some j"
proof -
  have ge: "length p < i"
  proof (rule ccontr)
    assume "\<not> length p < i"
    then have e: "take i (p @ t) = take i p"
      by simp
    from q have "CHR ''?'' \<in> set (take i p)"
      unfolding e .
    with nq show False
      by (auto dest: in_set_takeD)
  qed
  then have "strings_LastIndex t m = Some (i - length p)"
    using strings_LastIndex_append_ge [OF idx] by simp
  with ge show ?thesis
    by (intro exI [of _ "i - length p"]) simp
qed

lemma Authenticate_replace_authority:
  assumes acc: "Authenticate c (s1 @ ''://'' @ a1 @ t) = Inr (u, vals)"
    and s1: "valid_scheme s1" and a1: "plain_authority a1"
    and s2: "valid_scheme s2" and a2: "plain_authority a2"
    and t: "t = [] \<or> hd t \<in> set ''/?#''"
  shows "Authenticate c (s2 @ ''://'' @ a2 @ t) =
     Inr (u\<lparr>Scheme := strings_ToLower s2, Host := the (parseAuthority a2)\<rparr>, vals)"
proof -
  let ?p1 = "s1 @ ''://'' @ a1" and ?p2 = "s2 @ ''://'' @ a2"
  let ?m = "''&signature=''"
  let ?f = "\<lambda>u. u\<lparr>Scheme := strings_ToLower s2, Host := the (parseAuthority a2)\<rparr>"
  from acc obtain client key sg i u' where
    chk: "CheckSignedUrl (?p1 @ t) = Inr (u, vals)"
    and cl: "vals ''client'' = Some [client]" and sig: "vals ''signature'' = Some [sg]"
    and key: "c client = Some key"
    and idx: "strings_LastIndex (?p1 @ t) ?m = Some i"
    and pre: "url_Parse (take i (?p1 @ t)) = Some u'"
    and cs: "CreateSignature u' key = Inr sg"
    unfolding Authenticate_Inr_iff by auto
  have nq: "CHR ''?'' \<notin> set ?p1"
    using valid_scheme_special(2) [OF s1] plain_authority_special(1) [OF a1] by simp
  have q: "CHR ''?'' \<in> set (take i (?p1 @ t))"
    using pre cs by (rule CreateSignature_question)
  from marker_in_tail [OF idx q nq] obtain j where i: "i = length ?p1 + j" and j0: "0 < j"
    and tj: "strings_LastIndex t ?m = Some j"
    by blast
  from strings_LastIndex_le [OF tj] have jt: "j \<le> length t" .
  have idx2: "strings_LastIndex (?p2 @ t) ?m = Some (length ?p2 + j)"
    using strings_LastIndex_append [OF tj, of ?p2] .
  have take1: "take i (?p1 @ t) = ?p1 @ take j t"
    unfolding i by (rule take_length_append)
  have take2: "take (length ?p2 + j) (?p2 @ t) = ?p2 @ take j t"
    by (rule take_length_append)
  from j0 jt have tne: "t \<noteq> []"
    by auto
  with t j0 have t': "take j t = [] \<or> hd (take j t) \<in> set ''/?#''"
    by (cases t; cases j) auto
  have "url_Parse (?p2 @ take j t) = map_option ?f (url_Parse (?p1 @ take j t))"
    using url_Parse_replace_authority [OF s1 a1 s2 a2 t'] by simp
  with pre take1 have pre2: "url_Parse (take (length ?p2 + j) (?p2 @ t)) = Some (?f u')"
    by (simp only: take2 option.map)
  have cs2: "CreateSignature (?f u') key = Inr sg"
    using cs CreateSignature_cong [of "?f u'" u' key] by simp
  from chk have p1: "url_Parse (?p1 @ t) = Some u"
    and vq: "url_ParseQuery (RawQuery u) = Some vals"
    and ex: "exactly_one (vals ''client'')" "exactly_one (vals ''signature'')"
    by (simp_all add: CheckSignedUrl_Inr_iff)
  have "url_Parse (?p2 @ t) = map_option ?f (url_Parse (?p1 @ t))"
    using url_Parse_replace_authority [OF s1 a1 s2 a2 t] by simp
  with p1 have p2: "url_Parse (?p2 @ t) = Some (?f u)"
    by (simp only: option.map)
  have chk2: "CheckSignedUrl (?p2 @ t) = Inr (?f u, vals)"
    unfolding CheckSignedUrl_Inr_iff using p2 vq ex by simp
  have "Authenticate c (?p2 @ t) = Inr (?f u, vals)"
    unfolding Authenticate_Inr_iff using chk2 cl sig key idx2 pre2 cs2 by blast
  then show ?thesis
    by simp
qed

lemma kFullSignedUrl_accepted:
  "Authenticate [''clientID'' \<mapsto> kPrivateKey] kFullSignedUrl =
     Inr (\<lparr>Scheme = ''http'', Host = ''maps.googleapis.com'', Path = ''/maps/api/geocode/json'',
           RawQuery = ''address=New+York&sensor=false&client=clientID&signature=KrU1TzVQM7Ur0i8i7K3huiw3MsA=''\<rparr>,
          [''address'' \<mapsto> [''New York''], ''sensor'' \<mapsto> [''false''], ''client'' \<mapsto> [''clientID''],
           ''signature'' \<mapsto> [''KrU1TzVQM7Ur0i8i7K3huiw3MsA='']])"
proof -
  have "url_Parse (take 94 kFullSignedUrl) = Some \<lparr>Scheme = ''http'', Host = ''maps.googleapis.com'',
     Path = ''/maps/api/geocode/json'', RawQuery = ''address=New+York&sensor=false&client=clientID''\<rparr>"
    by (simp only: kFullSignedUrl_take kUrl_parsed)
  moreover have "CreateSignature \<lparr>Scheme = ''http'', Host = ''maps.googleapis.com'',
     Path = ''/maps/api/geocode/json'', RawQuery = ''address=New+York&sensor=false&client=clientID''\<rparr>
     kPrivateKey = Inr ''KrU1TzVQM7Ur0i8i7K3huiw3MsA=''"
    using kUrl_CreateSignature by (simp add: kSignature_def)
  ultimately show ?thesis
    unfolding Authenticate_Inr_iff
    using kFullSignedUrl_checked kFullSignedUrl_marker
    by (intro exI [of _ "''clientID''"] exI [of _ kPrivateKey]
        exI [of _ "''KrU1TzVQM7Ur0i8i7K3huiw3MsA=''"] exI [of _ 94]
        exI [of _ "\<lparr>Scheme = ''http'', Host = ''maps.googleapis.com'',
     Path = ''/maps/api/geocode/json'', RawQuery = ''address=New+York&sensor=false&client=clientID''\<rparr>"]) simp
qed

lemma valid_scheme_http: "valid_scheme ''http''"
  by (simp add: valid_scheme_def scheme_char_def is_lower_def is_upper_def is_digit_def ord_def)

lemma valid_scheme_HTTPS: "valid_scheme ''HTTPS''"
  by (simp add: valid_scheme_def scheme_char_def is_lower_def is_upper_def is_digit_def ord_def)

lemma plain_authority_reference: "plain_authority ''maps.googleapis.com''"
  by (simp add: plain_authority_def stringContainsCTLByte_def url_eval ord_def)

lemma replaced_authority_parsed: "parseAuthority ''user@example.org:8080'' = Some ''example.org:8080''"
  by (simp add: url_eval validUserinfo_def ord_def)

lemma plain_authority_replaced: "plain_authority ''user@example.org:8080''"
  by (simp add: plain_authority_def replaced_authority_parsed stringContainsCTLByte_def ord_def)

lemma strings_ToLower_HTTPS: "strings_ToLower ''HTTPS'' = ''https''"
  by (simp add: strings_ToLower_def is_upper_def ord_def char_of_def bit_0)

text \<open>
  Claim C10. The signature covers the path and the raw query only: two URLs with the same
  path and the same raw query have, for every key, the same result of
  \<open>CreateSignature\<close>. Consequently, when \<open>Authenticate\<close> accepts a raw URL that
  consists of a scheme, \<open>://\<close>, an authority and a rest that starts at the path, the
  query or the fragment, it accepts, with the same repository, the raw URL with any other
  scheme and any other authority before the same rest, and returns the same query values
  and the same URL but for the new scheme and the new host.
\<close>

theorem C10_signature_ignores_scheme_and_host:
  "(Path u1 = Path u2 \<and> RawQuery u1 = RawQuery u2
      \<longrightarrow> CreateSignature u1 k = CreateSignature u2 k)
   \<and> (valid_scheme s1 \<and> plain_authority a1 \<and> valid_scheme s2 \<and> plain_authority a2
       \<and> parseAuthority a2 = Some h2 \<and> (t = [] \<or> hd t \<in> set ''/?#'')
       \<and> Authenticate c (s1 @ ''://'' @ a1 @ t) = Inr (u, vals)
      \<longrightarrow> Authenticate c (s2 @ ''://'' @ a2 @ t)
            = Inr (u\<lparr>Scheme := strings_ToLower s2, Host := h2\<rparr>, vals))"
proof (intro conjI impI)
  assume e: "Path u1 = Path u2 \<and> RawQuery u1 = RawQuery u2"
  show "CreateSignature u1 k = CreateSignature u2 k"
    by (rule CreateSignature_cong [OF e [THEN conjunct1] e [THEN conjunct2]])
next
  assume a: "valid_scheme s1 \<and> plain_authority a1 \<and> valid_scheme s2 \<and> plain_authority a2
       \<and> parseAuthority a2 = Some h2 \<and> (t = [] \<or> hd t \<in> set ''/?#'')
       \<and> Authenticate c (s1 @ ''://'' @ a1 @ t) = Inr (u, vals)"
  note s1 = a [THEN conjunct1]
  note a1 = a [THEN conjunct2, THEN conjunct1]
  note s2 = a [THEN conjunct2, THEN conjunct2, THEN conjunct1]
  note a2 = a [THEN conjunct2, THEN conjunct2, THEN conjunct2, THEN conjunct1]
  note h2 = a [THEN conjunct2, THEN conjunct2, THEN conjunct2, THEN conjunct2, THEN conjunct1]
  note t = a [THEN conjunct2, THEN conjunct2, THEN conjunct2, THEN conjunct2, THEN conjunct2,
      THEN conjunct1]
  note acc = a [THEN conjunct2, THEN conjunct2, THEN conjunct2, THEN conjunct2, THEN conjunct2,
      THEN conjunct2]
  from Authenticate_replace_authority [OF acc s1 a1 s2 a2 t]
  show "Authenticate c (s2 @ ''://'' @ a2 @ t)
            = Inr (u\<lparr>Scheme := strings_ToLower s2, Host := h2\<rparr>, vals)"
    unfolding h2 option.sel .
qed

text \<open>
  Claim C10, witness: the signed reference URL is accepted, and so is the same request
  with the scheme \<open>HTTPS\<close> and the authority \<open>user@example.org:8080\<close>.
\<close>

theorem C10_witness:
  "CreateSignature \<lparr>Scheme = ''http'', Host = ''maps.googleapis.com'',
       Path = ''/maps/api/geocode/json'', RawQuery = ''address=New+York&sensor=false&client=clientID''\<rparr>
     kPrivateKey
   = CreateSignature \<lparr>Scheme = ''https'', Host = ''example.org:8080'',
       Path = ''/maps/api/geocode/json'', RawQuery = ''address=New+York&sensor=false&client=clientID''\<rparr>
     kPrivateKey
   \<and> valid_scheme ''http'' \<and> plain_authority ''maps.googleapis.com''
   \<and> valid_scheme ''HTTPS'' \<and> plain_authority ''user@example.org:8080''
   \<and> parseAuthority ''user@example.org:8080'' = Some ''example.org:8080''
   \<and> Authenticate [''clientID'' \<mapsto> kPrivateKey]
        ''http://maps.googleapis.com/maps/api/geocode/json?address=New+York&sensor=false&client=clientID&signature=KrU1TzVQM7Ur0i8i7K3huiw3MsA=''
      = Inr (\<lparr>Scheme = ''http'', Host = ''maps.googleapis.com'', Path = ''/maps/api/geocode/json'',
           RawQuery = ''address=New+York&sensor=false&client=clientID&signature=KrU1TzVQM7Ur0i8i7K3huiw3MsA=''\<rparr>,
          [''address'' \<mapsto> [''New York''], ''sensor'' \<mapsto> [''false''], ''client'' \<mapsto> [''clientID''],
           ''signature'' \<mapsto> [''KrU1TzVQM7Ur0i8i7K3huiw3MsA='']])
   \<and> Authenticate [''clientID'' \<mapsto> kPrivateKey]
        ''HTTPS://user@example.org:8080/maps/api/geocode/json?address=New+York&sensor=false&client=clientID&signature=KrU1TzVQM7Ur0i8i7K3huiw3MsA=''
      = Inr (\<lparr>Scheme = ''https'', Host = ''example.org:8080'', Path = ''/maps/api/geocode/json'',
           RawQuery = ''address=New+York&sensor=false&client=clientID&signature=KrU1TzVQM7Ur0i8i7K3huiw3MsA=''\<rparr>,
          [''address'' \<mapsto> [''New York''], ''sensor'' \<mapsto> [''false''], ''client'' \<mapsto> [''clientID''],
           ''signature'' \<mapsto> [''KrU1TzVQM7Ur0i8i7K3huiw3MsA='']])"
proof -
  let ?t = "''/maps/api/geocode/json?address=New+York&sensor=false&client=clientID&signature=KrU1TzVQM7Ur0i8i7K3huiw3MsA=''"
  let ?u = "\<lparr>Scheme = ''http'', Host = ''maps.googleapis.com'', Path = ''/maps/api/geocode/json'',
           RawQuery = ''address=New+York&sensor=false&client=clientID&signature=KrU1TzVQM7Ur0i8i7K3huiw3MsA=''\<rparr>"
  let ?vals = "[''address'' \<mapsto> [''New York''], ''sensor'' \<mapsto> [''false''], ''client'' \<mapsto> [''clientID''],
           ''signature'' \<mapsto> [''KrU1TzVQM7Ur0i8i7K3huiw3MsA='']]"
  have acc: "Authenticate [''clientID'' \<mapsto> kPrivateKey] (''http'' @ ''://'' @ ''maps.googleapis.com'' @ ?t)
      = Inr (?u, ?vals)"
    using kFullSignedUrl_accepted by (simp add: kFullSignedUrl_def)
  have w1: "CreateSignature \<lparr>Scheme = ''http'', Host = ''maps.googleapis.com'',
       Path = ''/maps/api/geocode/json'', RawQuery = ''address=New+York&sensor=false&client=clientID''\<rparr>
     kPrivateKey
   = CreateSignature \<lparr>Scheme = ''https'', Host = ''example.org:8080'',
       Path = ''/maps/api/geocode/json'', RawQuery = ''address=New+York&sensor=false&client=clientID''\<rparr>
     kPrivateKey"
    using C10_signature_ignores_scheme_and_host
      [where ?u1.0 = "\<lparr>Scheme = ''http'', Host = ''maps.googleapis.com'',
       Path = ''/maps/api/geocode/json'', RawQuery = ''address=New+York&sensor=false&client=clientID''\<rparr>"
        and ?u2.0 = "\<lparr>Scheme = ''https'', Host = ''example.org:8080'',
       Path = ''/maps/api/geocode/json'', RawQuery = ''address=New+York&sensor=false&client=clientID''\<rparr>"
        and k = kPrivateKey, THEN conjunct1]
    by simp
  have w2: "Authenticate [''clientID'' \<mapsto> kPrivateKey] (''HTTPS'' @ ''://'' @ ''user@example.org:8080'' @ ?t)
      = Inr (?u\<lparr>Scheme := strings_ToLower ''HTTPS'', Host := ''example.org:8080''\<rparr>, ?vals)"
    using C10_signature_ignores_scheme_and_host
      [where ?s1.0 = "''http''" and ?a1.0 = "''maps.googleapis.com''" and ?s2.0 = "''HTTPS''"
        and ?a2.0 = "''user@example.org:8080''" and ?h2.0 = "''example.org:8080''" and t = ?t
        and c = "[''clientID'' \<mapsto> kPrivateKey]" and u = ?u and vals = ?vals, THEN conjunct2]
      valid_scheme_http valid_scheme_HTTPS plain_authority_reference plain_authority_replaced
      replaced_authority_parsed acc
    by simp
  from w1 valid_scheme_http plain_authority_reference valid_scheme_HTTPS plain_authority_replaced
    replaced_authority_parsed acc w2
  show ?thesis
    by (simp add: strings_ToLower_HTTPS)
qed

end
